theory Spec2Isabelle
  imports Main
begin

section \<open>Personal expense tracker: the ledger engine of \<^verbatim>\<open>expense_tracker.py\<close>\<close>

text \<open>
  The development embeds the two classes of \<^verbatim>\<open>src/expense_tracker.py\<close>:
  the entity \<^verbatim>\<open>Expense\<close> (\<^verbatim>\<open>from_row\<close>, \<^verbatim>\<open>to_row\<close>) and the engine
  \<^verbatim>\<open>ExpenseTracker\<close> (load, save, add, list, total, budgets).

  Conventions.
  \<^item> A Python \<^verbatim>\<open>str\<close> is a \<open>string\<close>; a \<open>char\<close> stands for the code point of the
    same number, so the strings of the model are the Python strings over code points
    below 256.
  \<^item> An exception is a value of type \<open>error\<close>; a fallible computation returns
    \<open>error + 'a\<close> with \<open>Inl\<close> for the raised exception.
  \<^item> A method of the engine takes the state (the object's attributes and the two files
    it owns) and returns its result together with the state it leaves behind.
  \<^item> The standard library is modelled as CPython 3.11 runs it on the GNU C library:
    \<^verbatim>\<open>str.strip\<close>, \<^verbatim>\<open>str.lower\<close>, \<^verbatim>\<open>strptime\<close>/\<^verbatim>\<open>strftime\<close> for the one format
    used, the \<^verbatim>\<open>decimal\<close> module (its C implementation) under its default context,
    and the field size limit of the \<^verbatim>\<open>csv\<close> reader.
  \<^item> Exhausted memory is not modelled: a text is a list of any length.
\<close>

subsection \<open>Exceptions\<close>

datatype error =
    ValueError string
  | InvalidOperation    \<comment> \<open>\<^verbatim>\<open>decimal.InvalidOperation\<close>, an \<^verbatim>\<open>ArithmeticError\<close>\<close>
  | Overflow            \<comment> \<open>\<^verbatim>\<open>decimal.Overflow\<close>, an \<^verbatim>\<open>ArithmeticError\<close>\<close>
  | CsvError            \<comment> \<open>\<^verbatim>\<open>csv.Error\<close>, an \<^verbatim>\<open>Exception\<close> that is no \<^verbatim>\<open>ValueError\<close>\<close>

subsection \<open>Strings\<close>

text \<open>\<^verbatim>\<open>str.isspace\<close> on the code points below 256.\<close>

definition is_space :: "char \<Rightarrow> bool" where
  "is_space c \<longleftrightarrow> (of_char c :: nat) \<in> {9, 10, 11, 12, 13, 28, 29, 30, 31, 32, 133, 160}"

text \<open>\<^verbatim>\<open>s.strip()\<close>: leading and trailing whitespace removed.\<close>

definition strip :: "string \<Rightarrow> string" where
  "strip s = rev (dropWhile is_space (rev (dropWhile is_space s)))"

text \<open>\<^verbatim>\<open>s.lower()\<close> on the code points below 256: A-Z and the accented capitals
  192-222 except the multiplication sign 215 move up by 32.\<close>

definition lower_char :: "char \<Rightarrow> char" where
  "lower_char c =
     (let n = (of_char c :: nat)
      in if (65 \<le> n \<and> n \<le> 90) \<or> (192 \<le> n \<and> n \<le> 222 \<and> n \<noteq> 215)
         then char_of (n + 32) else c)"

definition lower :: "string \<Rightarrow> string" where
  "lower s = map lower_char s"

subsection \<open>Decimal digits\<close>

definition is_digit :: "char \<Rightarrow> bool" where
  "is_digit c \<longleftrightarrow> 48 \<le> (of_char c :: nat) \<and> (of_char c :: nat) \<le> 57"

definition digit_val :: "char \<Rightarrow> nat" where
  "digit_val c = of_char c - 48"

definition digit_char :: "nat \<Rightarrow> char" where
  "digit_char n = ''0123456789'' ! (n mod 10)"

text \<open>\<^verbatim>\<open>int(s)\<close> for a string of digits.\<close>

definition nat_of_digits :: "string \<Rightarrow> nat" where
  "nat_of_digits s = foldl (\<lambda>n c. 10 * n + digit_val c) 0 s"

text \<open>\<^verbatim>\<open>str(n)\<close> for a natural number.\<close>

fun digits_of :: "nat \<Rightarrow> string" where
  "digits_of n = (if n < 10 then [digit_char n] else digits_of (n div 10) @ [digit_char n])"

declare digits_of.simps [simp del]

text \<open>Zero-padding to a width, as \<^verbatim>\<open>%02d\<close> does.\<close>

definition zero_pad :: "nat \<Rightarrow> nat \<Rightarrow> string" where
  "zero_pad w n = replicate (w - length (digits_of n)) (CHR ''0'') @ digits_of n"

subsection \<open>Calendar dates\<close>

text \<open>\<^verbatim>\<open>datetime.date\<close>: a year from 1 to 9999, a month and a day of that month.\<close>

record date =
  year :: nat
  month :: nat
  day :: nat

definition is_leap :: "nat \<Rightarrow> bool" where
  "is_leap y \<longleftrightarrow> y mod 4 = 0 \<and> (y mod 100 \<noteq> 0 \<or> y mod 400 = 0)"

definition days_in_month :: "nat \<Rightarrow> nat \<Rightarrow> nat" where
  "days_in_month y m =
     (if m = 2 then (if is_leap y then 29 else 28)
      else if m \<in> {4, 6, 9, 11} then 30 else 31)"

definition valid_date :: "date \<Rightarrow> bool" where
  "valid_date d \<longleftrightarrow>
     1 \<le> year d \<and> year d \<le> 9999 \<and> 1 \<le> month d \<and> month d \<le> 12 \<and>
     1 \<le> day d \<and> day d \<le> days_in_month (year d) (month d)"

text \<open>
  \<^verbatim>\<open>datetime.strptime(s, "%Y-%m-%d").date()\<close>. The format compiles to the regular
  expression
  \<^verbatim>\<open>(\d\d\d\d)-(1[0-2]|0[1-9]|[1-9])-(3[0-1]|[1-2]\d|0[1-9]|[1-9]| [1-9])\<close>,
  matched at the start of the string; text left over after the match is an error, and
  so is a triple that is no calendar date. Each group is modelled by the list of its
  matches (value and rest of the input) in the order the alternatives are tried.
\<close>

definition match_lit :: "char \<Rightarrow> string \<Rightarrow> string list" where
  "match_lit c s = (case s of [] \<Rightarrow> [] | x # r \<Rightarrow> if x = c then [r] else [])"

definition match_Y :: "string \<Rightarrow> (nat \<times> string) list" where
  "match_Y s =
     (case s of
        a # b # c # d # r \<Rightarrow>
          if is_digit a \<and> is_digit b \<and> is_digit c \<and> is_digit d
          then [(nat_of_digits [a, b, c, d], r)] else []
      | _ \<Rightarrow> [])"

definition in_range :: "char \<Rightarrow> char \<Rightarrow> char \<Rightarrow> bool" where
  "in_range lo hi c \<longleftrightarrow> (of_char lo :: nat) \<le> of_char c \<and> (of_char c :: nat) \<le> of_char hi"

definition two_chars :: "(char \<Rightarrow> bool) \<Rightarrow> (char \<Rightarrow> bool) \<Rightarrow> string \<Rightarrow> (nat \<times> string) list" where
  "two_chars p q s =
     (case s of
        a # b # r \<Rightarrow> if p a \<and> q b then [(nat_of_digits [a, b], r)] else []
      | _ \<Rightarrow> [])"

definition one_char :: "(char \<Rightarrow> bool) \<Rightarrow> string \<Rightarrow> (nat \<times> string) list" where
  "one_char p s = (case s of a # r \<Rightarrow> if p a then [(digit_val a, r)] else [] | [] \<Rightarrow> [])"

definition match_m :: "string \<Rightarrow> (nat \<times> string) list" where
  "match_m s =
     two_chars (\<lambda>c. c = CHR ''1'') (in_range (CHR ''0'') (CHR ''2'')) s
     @ two_chars (\<lambda>c. c = CHR ''0'') (in_range (CHR ''1'') (CHR ''9'')) s
     @ one_char (in_range (CHR ''1'') (CHR ''9'')) s"

definition match_d :: "string \<Rightarrow> (nat \<times> string) list" where
  "match_d s =
     two_chars (\<lambda>c. c = CHR ''3'') (in_range (CHR ''0'') (CHR ''1'')) s
     @ two_chars (in_range (CHR ''1'') (CHR ''2'')) is_digit s
     @ two_chars (\<lambda>c. c = CHR ''0'') (in_range (CHR ''1'') (CHR ''9'')) s
     @ one_char (in_range (CHR ''1'') (CHR ''9'')) s
     @ concat (map (one_char (in_range (CHR ''1'') (CHR ''9''))) (match_lit (CHR '' '') s))"

definition match_ymd :: "string \<Rightarrow> (date \<times> string) list" where
  "match_ymd s =
     concat (map (\<lambda>(y, r1).
       concat (map (\<lambda>r2.
         concat (map (\<lambda>(m, r3).
           concat (map (\<lambda>r4.
             map (\<lambda>(d, r5). (\<lparr>year = y, month = m, day = d\<rparr>, r5)) (match_d r4))
           (match_lit (CHR ''-'') r3)))
         (match_m r2)))
       (match_lit (CHR ''-'') r1)))
     (match_Y s))"

definition strptime :: "string \<Rightarrow> error + date" where
  "strptime s =
     (case match_ymd s of
        [] \<Rightarrow> Inl (ValueError ''time data does not match format'')
      | (d, rest) # _ \<Rightarrow>
          if rest \<noteq> [] then Inl (ValueError ''unconverted data remains'')
          else if valid_date d then Inr d
          else Inl (ValueError ''date out of range''))"

text \<open>\<^verbatim>\<open>d.strftime("%Y-%m-%d")\<close> and \<^verbatim>\<open>d.strftime("%Y-%m")\<close>, which CPython passes to
  the C library: month and day on two digits, zero-padded, and the year as the GNU C
  library writes \<^verbatim>\<open>%Y\<close>, in decimal without padding. The year 999 is written
  \<^verbatim>\<open>999\<close>; only from the year 1000 on has the year four digits.\<close>

definition strftime_ymd :: "date \<Rightarrow> string" where
  "strftime_ymd d = digits_of (year d) @ ''-'' @ zero_pad 2 (month d) @ ''-'' @ zero_pad 2 (day d)"

definition strftime_ym :: "date \<Rightarrow> string" where
  "strftime_ym d = digits_of (year d) @ ''-'' @ zero_pad 2 (month d)"

subsection \<open>Decimal numbers\<close>

text \<open>
  \<^verbatim>\<open>decimal.Decimal\<close>: a finite number is a sign, a coefficient and an exponent and
  stands for \<open>\<plusminus> coefficient \<times> 10\<^sup>e\<close>; the special values are the two infinities and the
  quiet and signaling not-a-numbers (with sign and diagnostic payload). The sign is
  \<open>True\<close> for negative numbers.
\<close>

datatype decimal =
    Finite bool nat int
  | Infinity bool
  | NaN bool bool nat   \<comment> \<open>sign, signaling, payload\<close>

text \<open>The default context: 28 digits, round half even, exponents within
  \<open>\<plusminus>999999\<close>, traps on \<^verbatim>\<open>InvalidOperation\<close> and \<^verbatim>\<open>Overflow\<close>, no clamping.\<close>

definition prec :: nat where "prec = 28"
definition Emax :: int where "Emax = 999999"
definition Emin :: int where "Emin = - 999999"
definition Etiny :: int where "Etiny = Emin - int prec + 1"
definition Etop :: int where "Etop = Emax - int prec + 1"

text \<open>
  Rounding a result to the context (\<^verbatim>\<open>_fix\<close>): a coefficient of more than 28 digits,
  or an exponent below \<open>Etiny\<close>, loses its low digits, rounded half to even; a result
  above \<open>Emax\<close> raises \<^verbatim>\<open>Overflow\<close>; a zero only has its exponent brought into range;
  the payload of a not-a-number is cut to 28 digits.
\<close>

definition dec_fix :: "decimal \<Rightarrow> error + decimal" where
  "dec_fix d =
     (case d of
        Finite s c e \<Rightarrow>
          if c = 0 then Inr (Finite s 0 (min (max e Etiny) Emax))
          else
            let exp_min0 = int (length (digits_of c)) + e - int prec
            in if exp_min0 > Etop then Inl Overflow
               else
                 let exp_min = max exp_min0 Etiny
                 in if e < exp_min then
                      (let k = nat (exp_min - e);
                           q = c div 10 ^ k;
                           r = c mod 10 ^ k;
                           q' = (if 2 * r > 10 ^ k \<or> (2 * r = 10 ^ k \<and> odd q) then q + 1 else q);
                           carry = (length (digits_of q') > prec);
                           coeff = (if carry then q' div 10 else q');
                           ex = (if carry then exp_min + 1 else exp_min)
                       in if ex > Etop then Inl Overflow else Inr (Finite s coeff ex))
                    else Inr d
      | Infinity s \<Rightarrow> Inr d
      | NaN s g p \<Rightarrow> Inr (NaN s g (p mod 10 ^ prec)))"

text \<open>\<^verbatim>\<open>_check_nans\<close>: a signaling operand raises; otherwise the first not-a-number
  operand is the result.\<close>

definition check_nans :: "decimal \<Rightarrow> decimal \<Rightarrow> (error + decimal) option" where
  "check_nans a b =
     (case a of
        NaN s g p \<Rightarrow>
          if g then Some (Inl InvalidOperation)
          else (case b of
                  NaN s' g' p' \<Rightarrow>
                    if g' then Some (Inl InvalidOperation) else Some (dec_fix a)
                | _ \<Rightarrow> Some (dec_fix a))
      | _ \<Rightarrow>
          (case b of
             NaN s' g' p' \<Rightarrow> if g' then Some (Inl InvalidOperation) else Some (dec_fix b)
           | _ \<Rightarrow> None))"

definition signed :: "bool \<Rightarrow> nat \<Rightarrow> int" where
  "signed s c = (if s then - int c else int c)"

text \<open>
  Addition of two numbers that are not not-a-numbers: the exact sum at the smaller of
  the two exponents, rounded to the context. A zero sum is negative only when both
  operands are negative zeros.
\<close>

fun add_numbers :: "decimal \<Rightarrow> decimal \<Rightarrow> error + decimal" where
  "add_numbers (Infinity s) (Infinity s') =
     (if s \<noteq> s' then Inl InvalidOperation else Inr (Infinity s))"
| "add_numbers (Infinity s) (Finite s2 c2 e2) = Inr (Infinity s)"
| "add_numbers (Finite s1 c1 e1) (Infinity s') = Inr (Infinity s')"
| "add_numbers (Finite s1 c1 e1) (Finite s2 c2 e2) =
     (let e = min e1 e2;
          i = signed s1 c1 * 10 ^ nat (e1 - e) + signed s2 c2 * 10 ^ nat (e2 - e)
      in if i = 0 then dec_fix (Finite (c1 = 0 \<and> c2 = 0 \<and> s1 \<and> s2) 0 e)
         else dec_fix (Finite (i < 0) (nat \<bar>i\<bar>) e))"
| "add_numbers a b = Inl InvalidOperation"   \<comment> \<open>not reached: \<open>check_nans\<close> comes first\<close>

definition dec_add :: "decimal \<Rightarrow> decimal \<Rightarrow> error + decimal" where
  "dec_add a b = (case check_nans a b of Some r \<Rightarrow> r | None \<Rightarrow> add_numbers a b)"

definition dec_neg :: "decimal \<Rightarrow> decimal" where
  "dec_neg d =
     (case d of
        Finite s c e \<Rightarrow> Finite (\<not> s) c e
      | Infinity s \<Rightarrow> Infinity (\<not> s)
      | NaN s g p \<Rightarrow> NaN (\<not> s) g p)"

definition dec_sub :: "decimal \<Rightarrow> decimal \<Rightarrow> error + decimal" where
  "dec_sub a b = (case check_nans a b of Some r \<Rightarrow> r | None \<Rightarrow> add_numbers a (dec_neg b))"

text \<open>The comparisons \<^verbatim>\<open>d <= 0\<close> and \<^verbatim>\<open>d >= 0\<close>: an ordering comparison with a
  not-a-number raises \<^verbatim>\<open>InvalidOperation\<close>; both zeros compare equal to 0.\<close>

definition dec_le_zero :: "decimal \<Rightarrow> error + bool" where
  "dec_le_zero d =
     (case d of
        Finite s c e \<Rightarrow> Inr (c = 0 \<or> s)
      | Infinity s \<Rightarrow> Inr s
      | NaN s g p \<Rightarrow> Inl InvalidOperation)"

definition dec_ge_zero :: "decimal \<Rightarrow> error + bool" where
  "dec_ge_zero d =
     (case d of
        Finite s c e \<Rightarrow> Inr (c = 0 \<or> \<not> s)
      | Infinity s \<Rightarrow> Inr (\<not> s)
      | NaN s g p \<Rightarrow> Inl InvalidOperation)"

text \<open>
  \<^verbatim>\<open>Decimal(v)\<close> for a string: whitespace around and underscores anywhere are dropped;
  then, ignoring case, an optional sign is followed by a number (digits with an optional
  point and an optional exponent, at least one digit), by \<^verbatim>\<open>Inf\<close> or \<^verbatim>\<open>Infinity\<close>, or
  by \<^verbatim>\<open>NaN\<close> or \<^verbatim>\<open>sNaN\<close> and payload digits. Anything else raises
  \<^verbatim>\<open>InvalidOperation\<close>.

  The conversion is exact or fails: the number is read under the widest context of the
  C implementation (precision and largest exponent \<open>999999999999999999\<close>, smallest
  exponent of a subnormal \<open>- 1999999999999999997\<close>), and a number that this context
  would round, clamp or overflow raises \<^verbatim>\<open>InvalidOperation\<close> too. So does a
  fraction, a coefficient or a payload of more digits than the precision.
\<close>

definition MAX_PREC :: nat where "MAX_PREC = 999999999999999999"
definition MAX_EMAX :: int where "MAX_EMAX = 999999999999999999"
definition MIN_ETINY :: int where "MIN_ETINY = - 1999999999999999997"

text \<open>A coefficient and exponent that the widest context holds unchanged: the exponent
  is not below the smallest one, and the exponent of the leading digit not above the
  largest one.\<close>

definition representable :: "nat \<Rightarrow> int \<Rightarrow> bool" where
  "representable c e \<longleftrightarrow>
     length (digits_of c) \<le> MAX_PREC \<and> MIN_ETINY \<le> e
     \<and> e + int (length (digits_of c)) - 1 \<le> MAX_EMAX"

definition first_is :: "char \<Rightarrow> string \<Rightarrow> bool" where
  "first_is c s \<longleftrightarrow> take 1 s = [c]"

definition parse_exponent :: "string \<Rightarrow> int option" where
  "parse_exponent s =
     (case s of
        [] \<Rightarrow> Some 0
      | c # r \<Rightarrow>
          if c \<noteq> CHR ''e'' then None
          else
            let neg = first_is (CHR ''-'') r;
                ds = (if first_is (CHR ''-'') r \<or> first_is (CHR ''+'') r then drop 1 r else r)
            in if ds \<noteq> [] \<and> list_all is_digit ds
               then Some (if neg then - int (nat_of_digits ds) else int (nat_of_digits ds))
               else None)"

definition parse_number :: "string \<Rightarrow> (nat \<times> int) option" where
  "parse_number s =
     (let ip = takeWhile is_digit s;
          r1 = dropWhile is_digit s;
          point = first_is (CHR ''.'') r1;
          fp = (if point then takeWhile is_digit (drop 1 r1) else []);
          r2 = (if point then dropWhile is_digit (drop 1 r1) else r1)
      in if (ip = [] \<and> fp = []) \<or> MAX_PREC < length fp then None
         else case parse_exponent r2 of
                None \<Rightarrow> None
              | Some x \<Rightarrow> Some (nat_of_digits (ip @ fp), x - int (length fp)))"

definition parse_nan :: "string \<Rightarrow> (bool \<times> nat) option" where
  "parse_nan s =
     (let g = first_is (CHR ''s'') s;
          r = (if g then drop 1 s else s)
      in if take 3 r = ''nan'' \<and> list_all is_digit (drop 3 r)
            \<and> length (digits_of (nat_of_digits (drop 3 r))) \<le> MAX_PREC
         then Some (g, nat_of_digits (drop 3 r)) else None)"

definition Decimal :: "string \<Rightarrow> error + decimal" where
  "Decimal v =
     (let s = filter (\<lambda>c. c \<noteq> CHR ''_'') (strip v);
          sg = first_is (CHR ''-'') s;
          body = lower (if first_is (CHR ''-'') s \<or> first_is (CHR ''+'') s then drop 1 s else s)
      in case parse_number body of
           Some (c, e) \<Rightarrow>
             if representable c e then Inr (Finite sg c e) else Inl InvalidOperation
         | None \<Rightarrow>
             if body = ''inf'' \<or> body = ''infinity'' then Inr (Infinity sg)
             else case parse_nan body of
                    Some (g, p) \<Rightarrow> Inr (NaN sg g p)
                  | None \<Rightarrow> Inl InvalidOperation)"

text \<open>
  \<^verbatim>\<open>format(d, 'f')\<close>: fixed-point text. The digits of the coefficient are placed around
  the decimal point that the exponent fixes, padded with zeros on either side; a zero
  with a positive exponent is written \<^verbatim>\<open>0\<close>; there is no exponent part and no grouping.
\<close>

definition sign_text :: "bool \<Rightarrow> string" where
  "sign_text s = (if s then ''-'' else [])"

text \<open>The digits \<open>ds\<close> placed around the decimal point for the exponent \<open>e\<close>.\<close>

definition place_point :: "string \<Rightarrow> int \<Rightarrow> string" where
  "place_point ds e =
     (let dotplace = e + int (length ds);
          ip = (if dotplace < 0 then ''0''
                else if dotplace > int (length ds)
                then ds @ replicate (nat (dotplace - int (length ds))) (CHR ''0'')
                else if take (nat dotplace) ds = [] then ''0'' else take (nat dotplace) ds);
          fp = (if dotplace < 0 then replicate (nat (- dotplace)) (CHR ''0'') @ ds
                else if dotplace > int (length ds) then []
                else drop (nat dotplace) ds)
      in ip @ (if fp = [] then [] else ''.'' @ fp))"

definition format_f :: "decimal \<Rightarrow> string" where
  "format_f d =
     (case d of
        Finite s c e \<Rightarrow>
          sign_text s @ place_point (digits_of c) (if c = 0 \<and> e > 0 then 0 else e)
      | Infinity s \<Rightarrow> sign_text s @ ''Infinity''
      | NaN s g p \<Rightarrow>
          sign_text s @ (if g then ''sNaN'' else ''NaN'') @ (if p = 0 then [] else digits_of p))"

subsection \<open>Dictionaries\<close>

text \<open>A Python \<^verbatim>\<open>dict\<close> is the list of its items in insertion order, with distinct
  keys: assigning to a key that is present replaces its value in place, assigning to a
  new key appends an item.\<close>

fun dict_set :: "'k \<Rightarrow> 'v \<Rightarrow> ('k \<times> 'v) list \<Rightarrow> ('k \<times> 'v) list" where
  "dict_set k v [] = [(k, v)]"
| "dict_set k v ((k', v') # d) = (if k' = k then (k, v) # d else (k', v') # dict_set k v d)"

definition dict_get :: "('k \<times> 'v) list \<Rightarrow> 'k \<Rightarrow> 'v option" where
  "dict_get d k = map_of d k"

subsection \<open>The Expense entity\<close>

record expense =
  date :: date
  category :: string
  amount :: decimal
  description :: string

text \<open>
  The argument of \<^verbatim>\<open>from_row\<close> is a dictionary as \<^verbatim>\<open>csv.DictReader\<close> builds it: under
  each field name a text or \<^verbatim>\<open>None\<close> (\<open>named\<close>), and, when the record was longer than
  the header, the surplus fields under the key \<^verbatim>\<open>None\<close> (\<open>rest\<close>).
\<close>

record row =
  named :: "(string \<times> string option) list"
  rest :: "string list option"

text \<open>\<^verbatim>\<open>not row\<close>: the dictionary has no item.\<close>

definition row_is_empty :: "row \<Rightarrow> bool" where
  "row_is_empty r \<longleftrightarrow> named r = [] \<and> rest r = None"

text \<open>\<^verbatim>\<open>row.get(k)\<close>: the text under \<open>k\<close>, or \<^verbatim>\<open>None\<close> for a missing key and for a
  stored \<^verbatim>\<open>None\<close> alike.\<close>

definition row_get :: "row \<Rightarrow> string \<Rightarrow> string option" where
  "row_get r k = (case dict_get (named r) k of Some (Some s) \<Rightarrow> Some s | _ \<Rightarrow> None)"

text \<open>The body of the first \<^verbatim>\<open>try\<close> block of \<^verbatim>\<open>from_row\<close>.\<close>

definition from_row_date :: "row \<Rightarrow> error + date" where
  "from_row_date r =
     (case row_get r ''date'' of
        None \<Rightarrow> Inl (ValueError ''Missing date'')
      | Some date_str \<Rightarrow>
          if date_str = [] then Inl (ValueError ''Missing date'')
          else strptime (strip date_str))"

text \<open>The body of the second \<^verbatim>\<open>try\<close> block of \<^verbatim>\<open>from_row\<close>.\<close>

definition from_row_amount :: "row \<Rightarrow> error + decimal" where
  "from_row_amount r =
     (case row_get r ''amount'' of
        None \<Rightarrow> Inl (ValueError ''Missing amount'')
      | Some amt_str \<Rightarrow>
          if amt_str = [] then Inl (ValueError ''Missing amount'')
          else Decimal (strip amt_str))"

text \<open>
  \<^verbatim>\<open>Expense.from_row\<close>. The first handler, \<^verbatim>\<open>except (KeyError, Exception)\<close>, catches
  every exception of its block; the second, \<^verbatim>\<open>except (InvalidOperation, AttributeError,
  KeyError)\<close>, catches the failed conversion and lets a \<^verbatim>\<open>ValueError\<close> pass. The
  comparison \<^verbatim>\<open>amt <= 0\<close> stands outside both blocks.
\<close>

definition from_row :: "row \<Rightarrow> error + expense" where
  "from_row r =
     (if row_is_empty r then Inl (ValueError ''Input row cannot be empty'')
      else
        case from_row_date r of
          Inl e \<Rightarrow> Inl (ValueError ''Invalid date format'')
        | Inr d \<Rightarrow>
            (case row_get r ''category'' of
               None \<Rightarrow> Inl (ValueError ''Missing category'')
             | Some cat \<Rightarrow>
                 if cat = [] then Inl (ValueError ''Missing category'')
                 else
                   (case row_get r ''description'' of
                      None \<Rightarrow> Inl (ValueError ''Missing description'')
                    | Some desc \<Rightarrow>
                        if desc = [] then Inl (ValueError ''Missing description'')
                        else
                          (case from_row_amount r of
                             Inl InvalidOperation \<Rightarrow> Inl (ValueError ''Invalid amount'')
                           | Inl e \<Rightarrow> Inl e
                           | Inr amt \<Rightarrow>
                               (case dec_le_zero amt of
                                  Inl e \<Rightarrow> Inl e
                                | Inr True \<Rightarrow> Inl (ValueError ''Amount must be positive'')
                                | Inr False \<Rightarrow>
                                    Inr \<lparr>date = d, category = strip cat, amount = amt,
                                         description = strip desc\<rparr>)))))"

text \<open>\<^verbatim>\<open>Expense.to_row\<close>.\<close>

definition to_row :: "expense \<Rightarrow> (string \<times> string) list" where
  "to_row e =
     [(''date'', strftime_ymd (date e)),
      (''category'', category e),
      (''amount'', format_f (amount e)),
      (''description'', description e)]"

subsection \<open>The engine and its two files\<close>

text \<open>
  The expense file is held as the records it consists of (a list of fields per record,
  the first record being the header): \<^verbatim>\<open>csv.writer\<close> writes the records it is given,
  quoting a field where needed, and \<^verbatim>\<open>csv.reader\<close> yields the records of the file one
  by one, except that it refuses a field of more than 131072 characters. The budget file
  is either text that \<^verbatim>\<open>json.load\<close> rejects or the value it returns; a number with a
  fraction or exponent carries the text \<^verbatim>\<open>str\<close> gives for it, and an object is the
  dictionary built from it.
\<close>

datatype json =
    JNull
  | JBool bool
  | JInt int
  | JFloat string
  | JStr string
  | JArr "json list"
  | JObj "(string \<times> json) list"

datatype json_file = Malformed | Json json

record state =
  expenses :: "expense list"
  budgets :: "(string \<times> decimal) list"
  expenses_file :: "string list list option"
  budget_file :: "json_file option"


text \<open>The dictionary \<^verbatim>\<open>DictReader\<close> makes of one record: the fields zipped with the
  header, \<^verbatim>\<open>None\<close> under the field names a short record leaves out, the surplus of a long
  record under \<^verbatim>\<open>None\<close>.\<close>

definition dict_row :: "string list \<Rightarrow> string list \<Rightarrow> row" where
  "dict_row fieldnames cells =
     \<lparr>named = fold (\<lambda>k. dict_set k None) (drop (length cells) fieldnames)
                (fold (\<lambda>(k, v). dict_set k (Some v)) (zip fieldnames cells) []),
      rest = (if length fieldnames < length cells
              then Some (drop (length fieldnames) cells) else None)\<rparr>"

text \<open>The field size limit of the \<^verbatim>\<open>csv\<close> module, which the code leaves at its default:
  reading a record with a longer field raises \<^verbatim>\<open>csv.Error\<close>.\<close>

definition field_limit :: nat where "field_limit = 131072"

definition too_long :: "string list \<Rightarrow> bool" where
  "too_long cells \<longleftrightarrow> list_ex (\<lambda>c. field_limit < length c) cells"

text \<open>The loop of \<^verbatim>\<open>_load_expenses\<close> over the records after the header. The reader
  raises on a record with a field beyond the limit; \<^verbatim>\<open>DictReader\<close> passes over an
  empty record and makes a dictionary of any other; a row for which \<^verbatim>\<open>from_row\<close>
  raises \<^verbatim>\<open>ValueError\<close> is passed over; any other exception leaves the loop and the
  method, with the rows before it appended.\<close>

fun load_rows :: "string list \<Rightarrow> string list list \<Rightarrow> nat \<Rightarrow> state \<Rightarrow> (error + nat) \<times> state" where
  "load_rows fieldnames [] count st = (Inr count, st)"
| "load_rows fieldnames (cells # records) count st =
     (if too_long cells then (Inl CsvError, st)
      else if cells = [] then load_rows fieldnames records count st
      else
        case from_row (dict_row fieldnames cells) of
          Inr exp \<Rightarrow>
            load_rows fieldnames records (count + 1) (st\<lparr>expenses := expenses st @ [exp]\<rparr>)
        | Inl (ValueError msg) \<Rightarrow> load_rows fieldnames records count st
        | Inl e \<Rightarrow> (Inl e, st))"

text \<open>\<^verbatim>\<open>_load_expenses\<close>. \<^verbatim>\<open>DictReader\<close> takes the first record as the header, read
  when the loop asks for the first row.\<close>

definition load_expenses :: "state \<Rightarrow> (error + nat) \<times> state" where
  "load_expenses st =
     (case expenses_file st of
        None \<Rightarrow> (Inr 0, st)
      | Some [] \<Rightarrow> (Inr 0, st)
      | Some (fieldnames # records) \<Rightarrow>
          if too_long fieldnames then (Inl CsvError, st)
          else load_rows fieldnames records 0 st)"

text \<open>\<^verbatim>\<open>Decimal(str(v))\<close> for a value of the budget file: the text of \<^verbatim>\<open>True\<close>,
  \<^verbatim>\<open>None\<close>, a list or a dictionary is no number. An integer of more than 4300 digits
  has no text (\<^verbatim>\<open>str\<close> raises \<^verbatim>\<open>ValueError\<close>, as \<^verbatim>\<open>json.load\<close> does before it for
  such a numeral in the file).\<close>

definition decimal_of_json :: "json \<Rightarrow> error + decimal" where
  "decimal_of_json v =
     (case v of
        JStr s \<Rightarrow> Decimal s
      | JInt i \<Rightarrow>
          if 4300 < length (digits_of (nat \<bar>i\<bar>))
          then Inl (ValueError ''Exceeds the limit for integer string conversion'')
          else Inr (Finite (i < 0) (nat \<bar>i\<bar>) 0)
      | JFloat t \<Rightarrow> Decimal t
      | _ \<Rightarrow> Inl InvalidOperation)"

text \<open>The dictionary comprehension of \<^verbatim>\<open>_load_budgets\<close>.\<close>

fun budgets_of_items ::
  "(string \<times> json) list \<Rightarrow> (string \<times> decimal) list \<Rightarrow> error + (string \<times> decimal) list" where
  "budgets_of_items [] acc = Inr acc"
| "budgets_of_items ((k, v) # items) acc =
     (case decimal_of_json v of
        Inl e \<Rightarrow> Inl e
      | Inr d \<Rightarrow> budgets_of_items items (dict_set k d acc))"

text \<open>\<^verbatim>\<open>_load_budgets\<close>: every exception of the \<^verbatim>\<open>try\<close> block (text that is no JSON, a
  value that is no object, a value that is no number) ends in the handler.\<close>

definition load_budgets :: "state \<Rightarrow> nat \<times> state" where
  "load_budgets st =
     (case budget_file st of
        None \<Rightarrow> (0, st)
      | Some Malformed \<Rightarrow> (0, st\<lparr>budgets := []\<rparr>)
      | Some (Json (JObj items)) \<Rightarrow>
          (case budgets_of_items items [] of
             Inl e \<Rightarrow> (0, st\<lparr>budgets := []\<rparr>)
           | Inr b \<Rightarrow> (length b, st\<lparr>budgets := b\<rparr>))
      | Some (Json _) \<Rightarrow> (0, st\<lparr>budgets := []\<rparr>))"

definition load :: "state \<Rightarrow> (error + nat \<times> nat) \<times> state" where
  "load st =
     (case load_expenses st of
        (Inl e, st1) \<Rightarrow> (Inl e, st1)
      | (Inr exp_count, st1) \<Rightarrow>
          (case load_budgets st1 of (bud_count, st2) \<Rightarrow> (Inr (exp_count, bud_count), st2)))"

text \<open>\<^verbatim>\<open>_save_expenses\<close>: the header, then for each expense the values of \<^verbatim>\<open>to_row\<close> in
  the order of the field names (\<^verbatim>\<open>DictWriter\<close> writes an empty field for a missing
  key).\<close>

definition fieldnames :: "string list" where
  "fieldnames = [''date'', ''category'', ''amount'', ''description'']"





text \<open>\<^verbatim>\<open>_month_key\<close>.\<close>

definition month_key :: "date \<Rightarrow> string" where
  "month_key d = strftime_ym d"

text \<open>\<^verbatim>\<open>add_expense\<close>.\<close>

definition add_expense ::
  "date \<Rightarrow> string \<Rightarrow> decimal \<Rightarrow> string \<Rightarrow> state \<Rightarrow> expense \<times> state" where
  "add_expense d cat amt desc st =
     (let exp = \<lparr>date = d, category = strip cat, amount = amt, description = strip desc\<rparr>
      in (exp, st\<lparr>expenses := expenses st @ [exp]\<rparr>))"

text \<open>\<^verbatim>\<open>list_expenses\<close>. The tests \<^verbatim>\<open>if month_key:\<close> and \<^verbatim>\<open>if category:\<close> fail for
  \<^verbatim>\<open>None\<close> and for the empty string.\<close>

definition list_expenses :: "string option \<Rightarrow> string option \<Rightarrow> state \<Rightarrow> expense list \<times> state" where
  "list_expenses mk cat st =
     (let items = expenses st;
          items1 = (case mk of
                      None \<Rightarrow> items
                    | Some k \<Rightarrow>
                        if k = [] then items
                        else filter (\<lambda>e. month_key (date e) = k) items);
          items2 = (case cat of
                      None \<Rightarrow> items1
                    | Some c \<Rightarrow>
                        if c = [] then items1
                        else filter (\<lambda>e. lower (category e) = lower c) items1)
      in (items2, st))"

text \<open>\<^verbatim>\<open>sum(amounts, start)\<close>: addition from the left, starting from \<open>start\<close>.\<close>

fun sum_from :: "decimal \<Rightarrow> decimal list \<Rightarrow> error + decimal" where
  "sum_from acc [] = Inr acc"
| "sum_from acc (x # xs) =
     (case dec_add acc x of Inl e \<Rightarrow> Inl e | Inr acc' \<Rightarrow> sum_from acc' xs)"

text \<open>\<^verbatim>\<open>total_expenses\<close>, with \<^verbatim>\<open>Decimal('0')\<close> as the start.\<close>

definition total_expenses :: "string option \<Rightarrow> state \<Rightarrow> (error + decimal) \<times> state" where
  "total_expenses mk st =
     (case list_expenses mk None st of
        (items, st1) \<Rightarrow> (sum_from (Finite False 0 0) (map amount items), st1))"

text \<open>\<^verbatim>\<open>set_budget\<close>.\<close>

definition set_budget :: "string \<Rightarrow> decimal \<Rightarrow> state \<Rightarrow> (error + unit) \<times> state" where
  "set_budget mk amt st =
     (case dec_le_zero amt of
        Inl e \<Rightarrow> (Inl e, st)
      | Inr True \<Rightarrow> (Inl (ValueError ''Budget must be positive''), st)
      | Inr False \<Rightarrow> (Inr (), st\<lparr>budgets := dict_set mk amt (budgets st)\<rparr>))"

text \<open>\<^verbatim>\<open>get_budget\<close>.\<close>

definition get_budget :: "string \<Rightarrow> state \<Rightarrow> decimal option \<times> state" where
  "get_budget mk st = (dict_get (budgets st) mk, st)"

text \<open>The dictionary \<^verbatim>\<open>budget_status\<close> returns, one field per key.\<close>

record report =
  r_month :: string
  r_budget :: decimal
  r_total :: decimal
  r_remaining :: decimal
  r_status :: string

text \<open>\<^verbatim>\<open>budget_status\<close>, with \<^verbatim>\<open>Decimal('nan')\<close> in the two fields that have no value
  when no budget is set.\<close>

definition budget_status :: "string \<Rightarrow> state \<Rightarrow> (error + report) \<times> state" where
  "budget_status mk st =
     (case total_expenses (Some mk) st of
        (Inl e, st1) \<Rightarrow> (Inl e, st1)
      | (Inr tot, st1) \<Rightarrow>
          (case get_budget mk st1 of
             (None, st2) \<Rightarrow>
               (Inr \<lparr>r_month = mk, r_budget = NaN False False 0, r_total = tot,
                     r_remaining = NaN False False 0, r_status = ''no_budget''\<rparr>, st2)
           | (Some budget, st2) \<Rightarrow>
               (case dec_sub budget tot of
                  Inl e \<Rightarrow> (Inl e, st2)
                | Inr remaining \<Rightarrow>
                    (case dec_ge_zero remaining of
                       Inl e \<Rightarrow> (Inl e, st2)
                     | Inr ok \<Rightarrow>
                         (Inr \<lparr>r_month = mk, r_budget = budget, r_total = tot,
                               r_remaining = remaining,
                               r_status = (if ok then ''within_budget''
                                           else ''exceeded_budget'')\<rparr>, st2)))))"

subsection \<open>Notions of the specification\<close>

text \<open>A text is trimmed when it neither starts nor ends with whitespace.\<close>

definition trimmed :: "string \<Rightarrow> bool" where
  "trimmed s \<longleftrightarrow> s = [] \<or> (\<not> is_space (hd s) \<and> \<not> is_space (last s))"

text \<open>An engine that holds nothing and owns no file yet.\<close>

definition empty_state :: state where
  "empty_state = \<lparr>expenses = [], budgets = [], expenses_file = None, budget_file = None\<rparr>"

text \<open>An expense used in the examples.\<close>

definition lunch :: expense where
  "lunch = \<lparr>date = \<lparr>year = 2025, month = 1, day = 15\<rparr>, category = ''Food'',
            amount = Finite False 25000 (- 2), description = ''Lunch''\<rparr>"

text \<open>
  Filtering as the specification words it: an expense is wanted when its month key is
  the month filter, if there is one, and its category is the category filter up to
  letter case, if there is one.
\<close>

definition wanted :: "string option \<Rightarrow> string option \<Rightarrow> expense \<Rightarrow> bool" where
  "wanted mk cat e \<longleftrightarrow>
     (case mk of None \<Rightarrow> True | Some k \<Rightarrow> month_key (date e) = k)
     \<and> (case cat of None \<Rightarrow> True | Some c \<Rightarrow> lower (category e) = lower c)"

text \<open>The filter an argument supplies: none when the argument is left out or is the
  empty text.\<close>

definition supplied :: "string option \<Rightarrow> string option" where
  "supplied f = (case f of None \<Rightarrow> None | Some t \<Rightarrow> if t = [] then None else Some t)"

text \<open>The budget file parses as a whole when it holds an object all of whose values
  convert to decimals.\<close>

definition whole_file_parses :: "json_file \<Rightarrow> bool" where
  "whole_file_parses f =
     (case f of
        Json (JObj items) \<Rightarrow> list_all (\<lambda>(k, v). \<not> isl (decimal_of_json v)) items
      | _ \<Rightarrow> False)"

text \<open>A budget file whose second value is no number.\<close>

definition half_corrupt :: json_file where
  "half_corrupt = Json (JObj [(''2025-01'', JStr ''2000.00''), (''2025-02'', JStr ''abc'')])"

text \<open>An expense file whose second row has the amount \<^verbatim>\<open>NaN\<close>.\<close>

definition nan_file :: "string list list" where
  "nan_file = [[''date'', ''category'', ''amount'', ''description''],
               [''2025-01-15'', ''Food'', ''250.00'', ''Lunch''],
               [''2025-01-16'', ''Food'', ''NaN'', ''Dinner'']]"

text \<open>The causes of a failed construction, by the message the code raises them with.\<close>

definition EmptyRow :: error where
  "EmptyRow = ValueError ''Input row cannot be empty''"

definition MissingDate :: error where
  "MissingDate = ValueError ''Missing date''"

definition InvalidDate :: error where
  "InvalidDate = ValueError ''Invalid date format''"

definition MissingCategory :: error where
  "MissingCategory = ValueError ''Missing category''"

definition MissingDescription :: error where
  "MissingDescription = ValueError ''Missing description''"

definition MissingAmount :: error where
  "MissingAmount = ValueError ''Missing amount''"

definition InvalidAmount :: error where
  "InvalidAmount = ValueError ''Invalid amount''"

definition NonPositiveAmount :: error where
  "NonPositiveAmount = ValueError ''Amount must be positive''"

text \<open>A field is given when it is present and not the empty text.\<close>

definition given :: "string option \<Rightarrow> bool" where
  "given v \<longleftrightarrow> (case v of None \<Rightarrow> False | Some t \<Rightarrow> t \<noteq> [])"

text \<open>The sign of the number a decimal stands for: \<open>- 1\<close>, \<open>0\<close> or \<open>1\<close>; a not-a-number
  has none.\<close>

definition dec_sgn :: "decimal \<Rightarrow> int option" where
  "dec_sgn d =
     (case d of
        Finite s c e \<Rightarrow> Some (sgn (signed s c))
      | Infinity s \<Rightarrow> Some (if s then - 1 else 1)
      | NaN s g p \<Rightarrow> None)"

text \<open>A row built from the four fields, and one without a date.\<close>

definition row_of :: "(string \<times> string) list \<Rightarrow> row" where
  "row_of items = \<lparr>named = map (\<lambda>(k, v). (k, Some v)) items, rest = None\<rparr>"

definition lunch_row :: row where
  "lunch_row = row_of [(''date'', ''2025-01-15''), (''category'', '' Food''),
                       (''amount'', ''250.00''), (''description'', ''Lunch '')]"

definition undated_row :: row where
  "undated_row = row_of [(''category'', ''Food''), (''amount'', ''250.00''),
                         (''description'', ''Lunch'')]"

text \<open>
  Exact base-10 fixed point, as the specification asks for it: a finite decimal with at
  most \<open>q\<close> digits after the point is a whole number of units of \<open>10\<^sup>-\<^sup>q\<close>.
\<close>

definition fixed_point :: "nat \<Rightarrow> decimal \<Rightarrow> bool" where
  "fixed_point q d \<longleftrightarrow> (case d of Finite s c e \<Rightarrow> - int q \<le> e | _ \<Rightarrow> False)"

definition units :: "nat \<Rightarrow> decimal \<Rightarrow> int" where
  "units q d = (case d of Finite s c e \<Rightarrow> signed s c * 10 ^ nat (e + int q) | _ \<Rightarrow> 0)"

text \<open>More examples: an expense of one hundred written with an exponent, one of
  \<open>10\<^sup>2\<^sup>8\<close> and one of 1, and the budget of the specification's scenario.\<close>

definition taxi :: expense where
  "taxi = \<lparr>date = \<lparr>year = 2025, month = 1, day = 6\<rparr>, category = ''Travel'',
           amount = Finite False 1 2, description = ''Taxi''\<rparr>"

definition huge :: expense where
  "huge = \<lparr>date = \<lparr>year = 2025, month = 1, day = 15\<rparr>, category = ''Rent'',
           amount = Finite False 10000000000000000000000000000 0, description = ''Castle''\<rparr>"

definition tiny :: expense where
  "tiny = \<lparr>date = \<lparr>year = 2025, month = 1, day = 15\<rparr>, category = ''Food'',
           amount = Finite False 1 0, description = ''Sweet''\<rparr>"

definition scenario :: state where
  "scenario = empty_state\<lparr>expenses := [lunch], budgets := [(''2025-01'', Finite False 200000 (- 2))]\<rparr>"

text \<open>An expense of \<^verbatim>\<open>1E-2000000\<close>, below the smallest exponent of the decimal context; an
  engine whose budget for January is \<open>10\<^sup>2\<^sup>9\<close> and whose only expense is 1; and an engine
  without expenses whose budget for January is \<^verbatim>\<open>1E-2000000\<close>.\<close>

definition speck :: expense where
  "speck = \<lparr>date = \<lparr>year = 2025, month = 1, day = 15\<rparr>, category = ''Food'',
            amount = Finite False 1 (- 2000000), description = ''Crumb''\<rparr>"

definition lavish :: state where
  "lavish = empty_state\<lparr>expenses := [tiny], budgets := [(''2025-01'', Finite False 1 29)]\<rparr>"

definition frugal :: state where
  "frugal = empty_state\<lparr>budgets := [(''2025-01'', Finite False 1 (- 2000000))]\<rparr>"

text \<open>A decimal rewritten with no positive exponent; it stands for the same number.\<close>

definition to_fixed :: "decimal \<Rightarrow> decimal" where
  "to_fixed d = (case d of Finite s c e \<Rightarrow> Finite s (c * 10 ^ nat e) (min e 0) | _ \<Rightarrow> d)"


text \<open>Two decimals are the same number: equality of numbers as \<^verbatim>\<open>==\<close> decides it.\<close>

definition dec_eq :: "decimal \<Rightarrow> decimal \<Rightarrow> bool" where
  "dec_eq a b =
     (case a of
        Finite s1 c1 e1 \<Rightarrow>
          (case b of
             Finite s2 c2 e2 \<Rightarrow>
               signed s1 c1 * 10 ^ nat (e1 - min e1 e2) = signed s2 c2 * 10 ^ nat (e2 - min e1 e2)
           | _ \<Rightarrow> False)
      | Infinity s1 \<Rightarrow> (case b of Infinity s2 \<Rightarrow> s1 = s2 | _ \<Rightarrow> False)
      | NaN s g p \<Rightarrow> False)"



text \<open>The row of the taxi expense as a file may hold it, and an engine with two
  expenses and a budget.\<close>

definition taxi_row :: row where
  "taxi_row = row_of [(''date'', ''2025-1-6''), (''category'', ''Travel''),
                      (''amount'', ''1e2''), (''description'', ''Taxi'')]"


text \<open>
  An expense can be stored when the expense file can hold it and give it back: its date
  is of the year 1000 or later, so that the year is written on four digits, and its
  category, its description and the fixed-point text of its amount each fit the field
  size limit of the reader. An amount can be stored when its text fits that limit.
\<close>

definition storable_amount :: "decimal \<Rightarrow> bool" where
  "storable_amount a \<longleftrightarrow> length (format_f a) \<le> field_limit"


text \<open>An expense of the year 999 with the row it is constructed from, and an expense
  of \<^verbatim>\<open>1E+131072\<close>, whose fixed-point text has 131073 digits.\<close>

definition old :: expense where
  "old = \<lparr>date = \<lparr>year = 999, month = 1, day = 1\<rparr>, category = ''Rent'',
          amount = Finite False 5 0, description = ''Tithe''\<rparr>"

definition old_row :: row where
  "old_row = row_of [(''date'', ''0999-01-01''), (''category'', ''Rent''),
                     (''amount'', ''5''), (''description'', ''Tithe'')]"


section \<open>Properties\<close>

subsection \<open>Evaluation rules\<close>

lemmas string_eval = strip_def is_space_def lower_def lower_char_def char_of_def bit_Suc_0_iff
  first_is_def
lemmas digit_eval = is_digit_def digit_val_def nat_of_digits_def digit_char_def digits_of.simps
  zero_pad_def
lemmas date_eval = strptime_def match_ymd_def match_Y_def match_m_def match_d_def match_lit_def
  two_chars_def one_char_def in_range_def valid_date_def days_in_month_def is_leap_def
  strftime_ymd_def strftime_ym_def month_key_def
lemmas decimal_eval = Decimal_def parse_number_def parse_nan_def parse_exponent_def format_f_def
  place_point_def sign_text_def dec_le_zero_def dec_ge_zero_def representable_def MAX_PREC_def
  MAX_EMAX_def MIN_ETINY_def
lemmas arith_eval = dec_add_def dec_sub_def dec_neg_def check_nans_def signed_def dec_fix_def
  prec_def Etop_def Etiny_def Emax_def Emin_def Let_def
lemmas row_eval = from_row_def from_row_date_def from_row_amount_def row_get_def row_is_empty_def
  dict_get_def to_row_def dict_row_def

subsection \<open>Trimming\<close>

lemma last_dropWhile: "dropWhile P xs \<noteq> [] \<Longrightarrow> last (dropWhile P xs) = last xs"
  by (induction xs) (auto split: if_splits)

lemma hd_dropWhile_not: "dropWhile P xs \<noteq> [] \<Longrightarrow> \<not> P (hd (dropWhile P xs))"
  by (simp add: hd_dropWhile)

lemma trimmed_strip: "trimmed (strip s)"
proof (cases "strip s = []")
  case True
  then show ?thesis by (simp add: trimmed_def)
next
  case False
  define t where "t = dropWhile is_space s"
  define u where "u = dropWhile is_space (rev t)"
  have su: "strip s = rev u" by (simp add: strip_def t_def u_def)
  with False have u: "u \<noteq> []" by simp
  then have rt: "rev t \<noteq> []" by (auto simp: u_def)
  then have t: "t \<noteq> []" by simp
  have "\<not> is_space (hd u)" using u unfolding u_def by (rule hd_dropWhile_not)
  then have l: "\<not> is_space (last (strip s))" using u by (simp add: su last_rev)
  have "last u = last (rev t)" using u unfolding u_def by (rule last_dropWhile)
  then have "hd (strip s) = hd t" using u t by (simp add: su hd_rev last_rev)
  moreover have "\<not> is_space (hd t)" using t unfolding t_def by (rule hd_dropWhile_not)
  ultimately have h: "\<not> is_space (hd (strip s))" by simp
  from h l show ?thesis by (simp add: trimmed_def)
qed

subsection \<open>Adding an expense\<close>

text \<open>
  Claim C9. For every date, category, amount and description, whatever the amount and
  however blank the texts, \<^verbatim>\<open>add_expense\<close> raises nothing: it returns an expense whose
  date and amount are the arguments and whose category and description are the
  arguments trimmed, appends exactly that expense at the end of the sequence, and
  leaves the budgets and both files as they were.
\<close>

theorem add_expense_appends:
  "add_expense d cat amt desc st =
     (\<lparr>date = d, category = strip cat, amount = amt, description = strip desc\<rparr>,
      st\<lparr>expenses := expenses st
         @ [\<lparr>date = d, category = strip cat, amount = amt, description = strip desc\<rparr>]\<rparr>)
   \<and> trimmed (category (fst (add_expense d cat amt desc st)))
   \<and> trimmed (description (fst (add_expense d cat amt desc st)))
   \<and> expenses_file (snd (add_expense d cat amt desc st)) = expenses_file st
   \<and> budget_file (snd (add_expense d cat amt desc st)) = budget_file st
   \<and> budgets (snd (add_expense d cat amt desc st)) = budgets st"
  by (simp add: add_expense_def Let_def trimmed_strip)

theorem add_expense_appends_witness:
  "add_expense \<lparr>year = 2025, month = 1, day = 15\<rparr> ''  '' (Finite True 5 0) '' Lunch ''
       empty_state =
     (\<lparr>date = \<lparr>year = 2025, month = 1, day = 15\<rparr>, category = [], amount = Finite True 5 0,
       description = ''Lunch''\<rparr>,
      empty_state\<lparr>expenses :=
        [\<lparr>date = \<lparr>year = 2025, month = 1, day = 15\<rparr>, category = [], amount = Finite True 5 0,
          description = ''Lunch''\<rparr>]\<rparr>)"
  using add_expense_appends [of "\<lparr>year = 2025, month = 1, day = 15\<rparr>" "''  ''" "Finite True 5 0"
      "'' Lunch ''" empty_state]
  by (simp add: empty_state_def string_eval)

subsection \<open>Queries\<close>

text \<open>
  Claim C10. Each of the queries \<^verbatim>\<open>list_expenses\<close>, \<^verbatim>\<open>total_expenses\<close>,
  \<^verbatim>\<open>get_budget\<close> and \<^verbatim>\<open>budget_status\<close> leaves the whole state as it found it, for
  every state and every argument, also when it raises.
\<close>

theorem queries_leave_state:
  "snd (list_expenses mk cat st) = st \<and> snd (total_expenses mk st) = st
     \<and> snd (get_budget k st) = st \<and> snd (budget_status k st) = st"
  by (simp add: list_expenses_def total_expenses_def get_budget_def budget_status_def Let_def
      split: option.split sum.split prod.split)

theorem queries_leave_state_witness:
  "snd (budget_status ''2025-01'' (empty_state\<lparr>expenses := [lunch]\<rparr>))
     = empty_state\<lparr>expenses := [lunch]\<rparr>
   \<and> snd (list_expenses None None (empty_state\<lparr>expenses := [lunch]\<rparr>))
     = empty_state\<lparr>expenses := [lunch]\<rparr>"
  using queries_leave_state [of None None "empty_state\<lparr>expenses := [lunch]\<rparr>" "''2025-01''"]
  by simp

lemma lower_food: "lower ''Food'' = ''food''" "lower ''food'' = ''food''" "lower ''FOOD'' = ''food''"
  by (simp_all add: string_eval)

lemma month_key_lunch: "month_key (date lunch) = ''2025-01''"
  by (simp add: lunch_def date_eval digit_eval)

text \<open>
  Claim C7, as the specification has it: for every month filter and category filter,
  given or not, \<^verbatim>\<open>list_expenses\<close> returns the expenses that are \<open>wanted\<close> by the filters
  given. It fails for a filter given as the empty text: the code takes it as not given
  and returns every expense, also those of another category.
\<close>

theorem list_expenses_empty_filter_counterexample:
  "fst (list_expenses None (Some []) (empty_state\<lparr>expenses := [lunch]\<rparr>)) = [lunch]
     \<and> filter (wanted None (Some [])) [lunch] = []"
  by (simp add: list_expenses_def wanted_def lunch_def lower_def)

text \<open>
  Claim C7, amended: for every sequence of stored expenses and every pair of
  arguments, \<^verbatim>\<open>list_expenses\<close> returns exactly the stored expenses wanted by the filters
  supplied, in their stored order, where an argument left out or empty supplies no
  filter; the month filter is compared with the month key of the date, the category
  filter up to letter case; the stored sequence is left as it was.
\<close>

theorem list_expenses_filters:
  "list_expenses mk cat st = (filter (wanted (supplied mk) (supplied cat)) (expenses st), st)"
  by (auto simp: list_expenses_def wanted_def supplied_def Let_def split: option.split
      intro: filter_cong)

theorem list_expenses_filters_witness:
  "list_expenses (Some ''2025-01'') (Some ''FOOD'') (empty_state\<lparr>expenses := [lunch]\<rparr>)
     = ([lunch], empty_state\<lparr>expenses := [lunch]\<rparr>)
   \<and> list_expenses (Some ''2025-02'') None (empty_state\<lparr>expenses := [lunch]\<rparr>)
     = ([], empty_state\<lparr>expenses := [lunch]\<rparr>)"
  using list_expenses_filters [of "Some ''2025-01''" "Some ''FOOD''"
      "empty_state\<lparr>expenses := [lunch]\<rparr>"]
    list_expenses_filters [of "Some ''2025-02''" None "empty_state\<lparr>expenses := [lunch]\<rparr>"]
  by (simp add: wanted_def supplied_def month_key_lunch lower_food) (simp add: lunch_def lower_food)

subsection \<open>Loading the budget file\<close>

lemma budgets_of_items_Inr:
  "budgets_of_items items acc = Inr b \<Longrightarrow>
     list_all (\<lambda>(k, v). \<not> isl (decimal_of_json v)) items"
  by (induction items acc rule: budgets_of_items.induct) (auto split: sum.splits)

lemma load_budgets_corrupt:
  "budget_file st = Some f \<Longrightarrow> \<not> whole_file_parses f \<Longrightarrow>
     load_budgets st = (0, st\<lparr>budgets := []\<rparr>)"
  by (auto simp: load_budgets_def whole_file_parses_def
      split: json_file.splits json.splits sum.splits dest: budgets_of_items_Inr)

lemma load_rows_files:
  "load_rows names rs n st = (r, st') \<Longrightarrow>
     expenses_file st' = expenses_file st \<and> budget_file st' = budget_file st
     \<and> budgets st' = budgets st"
  by (induction names rs n st rule: load_rows.induct)
    (auto split: if_splits sum.splits error.splits)

lemma load_expenses_files:
  "load_expenses st = (r, st') \<Longrightarrow>
     expenses_file st' = expenses_file st \<and> budget_file st' = budget_file st
     \<and> budgets st' = budgets st"
  by (auto simp: load_expenses_def split: option.splits list.splits if_splits
      dest: load_rows_files)

lemma decimal_abc: "Decimal ''abc'' = Inl InvalidOperation"
  by (simp add: decimal_eval string_eval digit_eval)

text \<open>
  Claim C4. Whenever the budget file exists and does not parse as a whole (its text is
  no JSON, its value is no object, or one of its values is no number), \<^verbatim>\<open>load\<close>,
  once the expenses are read, raises nothing, reports zero budgets and leaves the
  budget map empty: no entry of the file and no entry held before is kept.
\<close>

theorem corrupt_budget_file_resets:
  "load_expenses st = (Inr n, st1) \<Longrightarrow> budget_file st = Some f \<Longrightarrow> \<not> whole_file_parses f \<Longrightarrow>
     load st = (Inr (n, 0), st1\<lparr>budgets := []\<rparr>)"
  using load_budgets_corrupt [of st1 f] load_expenses_files [of st "Inr n" st1]
  by (simp add: load_def)

theorem corrupt_budget_file_resets_witness:
  "load (empty_state\<lparr>budgets := [(''2024-12'', Finite False 5 0)],
                     budget_file := Some half_corrupt\<rparr>)
     = (Inr (0, 0), empty_state\<lparr>budget_file := Some half_corrupt\<rparr>)"
proof -
  let ?st = "empty_state\<lparr>budgets := [(''2024-12'', Finite False 5 0)],
                        budget_file := Some half_corrupt\<rparr>"
  have 1: "load_expenses ?st = (Inr 0, ?st)"
    by (simp add: load_expenses_def empty_state_def)
  have 2: "budget_file ?st = Some half_corrupt"
    by simp
  have 3: "\<not> whole_file_parses half_corrupt"
    by (simp add: whole_file_parses_def half_corrupt_def decimal_of_json_def decimal_abc)
  show ?thesis
    using corrupt_budget_file_resets [OF 1 2 3] by (simp add: empty_state_def)
qed

subsection \<open>Loading the expense file\<close>

lemma strip_plain:
  "strip ''2025-01-15'' = ''2025-01-15''" "strip ''250.00'' = ''250.00''"
  "strip ''NaN'' = ''NaN''" "strip ''Food'' = ''Food''" "strip ''Lunch'' = ''Lunch''"
  "strip ''2025-01-16'' = ''2025-01-16''" "strip ''Dinner'' = ''Dinner''"
  by (simp_all add: string_eval)

lemma strptime_lunch: "strptime ''2025-01-15'' = Inr \<lparr>year = 2025, month = 1, day = 15\<rparr>"
  by (simp add: date_eval digit_eval)

lemma strptime_dinner: "strptime ''2025-01-16'' = Inr \<lparr>year = 2025, month = 1, day = 16\<rparr>"
  by (simp add: date_eval digit_eval)

lemma decimal_250: "Decimal ''250.00'' = Inr (Finite False 25000 (- 2))"
  by (simp add: decimal_eval string_eval digit_eval)

lemma decimal_NaN: "Decimal ''NaN'' = Inr (NaN False False 0)"
  by (simp add: decimal_eval string_eval digit_eval)

lemma from_row_lunch:
  "from_row (dict_row [''date'', ''category'', ''amount'', ''description'']
       [''2025-01-15'', ''Food'', ''250.00'', ''Lunch'']) = Inr lunch"
  by (simp add: row_eval strip_plain strptime_lunch decimal_250 dec_le_zero_def lunch_def)

lemma from_row_nan:
  "from_row (dict_row [''date'', ''category'', ''amount'', ''description'']
       [''2025-01-16'', ''Food'', ''NaN'', ''Dinner'']) = Inl InvalidOperation"
  by (simp add: row_eval strip_plain strptime_dinner decimal_NaN dec_le_zero_def)

text \<open>
  Claim C3 says that \<^verbatim>\<open>load\<close> passes over every row that fails validation and
  surfaces no error. A row whose amount is the text \<^verbatim>\<open>NaN\<close> converts to a decimal, and
  the comparison \<^verbatim>\<open>amt <= 0\<close> then raises \<^verbatim>\<open>InvalidOperation\<close>, which is no
  \<^verbatim>\<open>ValueError\<close>: \<^verbatim>\<open>load\<close> raises it to its caller, with the rows before it already
  appended and the budgets not read.
\<close>

theorem load_nan_amount_raises:
  "load (empty_state\<lparr>expenses_file := Some nan_file\<rparr>)
     = (Inl InvalidOperation, empty_state\<lparr>expenses := [lunch], expenses_file := Some nan_file\<rparr>)"
  by (simp add: load_def load_expenses_def nan_file_def too_long_def field_limit_def
      from_row_lunch from_row_nan empty_state_def)

subsection \<open>Constructing an expense from a row\<close>

lemma Decimal_error: "Decimal v = Inl x \<Longrightarrow> x = InvalidOperation"
  by (auto simp: Decimal_def Let_def split: option.splits if_splits prod.splits)

lemma strptime_valid: "strptime s = Inr d \<Longrightarrow> valid_date d"
  by (auto simp: strptime_def split: list.splits if_splits prod.splits)

lemma strip_blank: "strip s = [] \<longleftrightarrow> list_all is_space s"
proof -
  have "(\<forall>x\<in>set (dropWhile is_space s). is_space x) \<longleftrightarrow> dropWhile is_space s = []"
    using hd_dropWhile_not [of is_space s]
    by (cases "dropWhile is_space s") (auto dest: set_dropWhileD)
  then show ?thesis
    by (simp add: strip_def dropWhile_eq_Nil_conv list_all_iff)
qed

lemma dec_le_zero_sgn:
  "dec_le_zero a = Inr b \<Longrightarrow> b \<longleftrightarrow> dec_sgn a \<in> {Some (- 1), Some 0}"
  by (auto simp: dec_le_zero_def dec_sgn_def signed_def sgn_if split: decimal.splits if_splits)

lemma dec_le_zero_nonpositive:
  "dec_sgn a \<in> {Some (- 1), Some 0} \<Longrightarrow> dec_le_zero a = Inr True"
  by (auto simp: dec_le_zero_def dec_sgn_def signed_def sgn_if split: decimal.splits if_splits)

lemma dec_le_zero_positive: "dec_sgn a = Some 1 \<Longrightarrow> dec_le_zero a = Inr False"
  by (auto simp: dec_le_zero_def dec_sgn_def signed_def sgn_if split: decimal.splits if_splits)

text \<open>
  Claim C2, as the specification has it: a mapping without a date fails with the cause
  \<open>MissingDate\<close>. The empty mapping fails with a cause of its own, and a mapping that
  only lacks the date fails with the cause of a malformed date.
\<close>

theorem from_row_missing_date_counterexample:
  "from_row (row_of []) = Inl EmptyRow \<and> EmptyRow \<noteq> MissingDate
   \<and> from_row undated_row = Inl InvalidDate \<and> InvalidDate \<noteq> MissingDate"
  by (simp add: row_eval row_of_def undated_row_def EmptyRow_def MissingDate_def InvalidDate_def)

text \<open>
  Claim C2, amended. The empty mapping fails with the cause \<open>EmptyRow\<close>. For a mapping
  that is not empty and gives a date text, the checks fail in this order, each with its
  own cause: a date text that does not parse as a calendar date \<open>YYYY-MM-DD\<close> with
  \<open>InvalidDate\<close>; a category missing or empty with \<open>MissingCategory\<close>; a description
  missing or empty with \<open>MissingDescription\<close>; an amount missing or empty with
  \<open>MissingAmount\<close>; an amount text that is no decimal with \<open>InvalidAmount\<close>; an amount
  that is a number not above zero with \<open>NonPositiveAmount\<close>. When the amount is a number
  above zero, construction succeeds with the parsed date and amount and the trimmed
  category and description. Every expense constructed has a calendar date, an amount
  above zero and trimmed texts, which are blank exactly when the field was whitespace
  only.
\<close>

theorem from_row_causes:
  "(row_is_empty r \<longrightarrow> from_row r = Inl EmptyRow)
   \<and> (\<not> row_is_empty r \<and> row_get r ''date'' = Some ds \<and> ds \<noteq> [] \<longrightarrow>
        (strptime (strip ds) = Inl x \<longrightarrow> from_row r = Inl InvalidDate)
      \<and> (strptime (strip ds) = Inr d \<longrightarrow>
           (\<not> given (row_get r ''category'') \<longrightarrow> from_row r = Inl MissingCategory)
         \<and> (row_get r ''category'' = Some c \<and> c \<noteq> [] \<longrightarrow>
              (\<not> given (row_get r ''description'') \<longrightarrow> from_row r = Inl MissingDescription)
            \<and> (row_get r ''description'' = Some t \<and> t \<noteq> [] \<longrightarrow>
                 (\<not> given (row_get r ''amount'') \<longrightarrow> from_row r = Inl MissingAmount)
               \<and> (row_get r ''amount'' = Some a \<and> a \<noteq> [] \<longrightarrow>
                    (Decimal (strip a) = Inl y \<longrightarrow> from_row r = Inl InvalidAmount)
                  \<and> (Decimal (strip a) = Inr amt \<and> dec_sgn amt \<in> {Some (- 1), Some 0} \<longrightarrow>
                       from_row r = Inl NonPositiveAmount)
                  \<and> (Decimal (strip a) = Inr amt \<and> dec_sgn amt = Some 1 \<longrightarrow>
                       from_row r = Inr \<lparr>date = d, category = strip c, amount = amt,
                                         description = strip t\<rparr>))))))
   \<and> (from_row r = Inr e \<longrightarrow>
        valid_date (date e) \<and> dec_sgn (amount e) = Some 1
      \<and> trimmed (category e) \<and> trimmed (description e)
      \<and> (\<exists>c t. row_get r ''category'' = Some c \<and> row_get r ''description'' = Some t
           \<and> category e = strip c \<and> description e = strip t
           \<and> (category e = [] \<longleftrightarrow> list_all is_space c)
           \<and> (description e = [] \<longleftrightarrow> list_all is_space t)))"
proof (intro conjI impI)
  assume "row_is_empty r"
  then show "from_row r = Inl EmptyRow"
    by (simp add: from_row_def EmptyRow_def)
next
  assume "\<not> row_is_empty r \<and> row_get r ''date'' = Some ds \<and> ds \<noteq> []" "strptime (strip ds) = Inl x"
  then show "from_row r = Inl InvalidDate"
    by (simp add: from_row_def from_row_date_def InvalidDate_def)
next
  assume "\<not> row_is_empty r \<and> row_get r ''date'' = Some ds \<and> ds \<noteq> []" "strptime (strip ds) = Inr d"
  then have date: "\<not> row_is_empty r" "from_row_date r = Inr d"
    by (simp_all add: from_row_date_def)
  {
    assume "\<not> given (row_get r ''category'')"
    with date show "from_row r = Inl MissingCategory"
      by (auto simp: from_row_def given_def MissingCategory_def split: option.splits)
  }
  assume cat: "row_get r ''category'' = Some c \<and> c \<noteq> []"
  {
    assume "\<not> given (row_get r ''description'')"
    with date cat show "from_row r = Inl MissingDescription"
      by (auto simp: from_row_def given_def MissingDescription_def split: option.splits)
  }
  assume desc: "row_get r ''description'' = Some t \<and> t \<noteq> []"
  {
    assume "\<not> given (row_get r ''amount'')"
    with date cat desc show "from_row r = Inl MissingAmount"
      by (auto simp: from_row_def from_row_amount_def given_def MissingAmount_def
          split: option.splits)
  }
  assume amt: "row_get r ''amount'' = Some a \<and> a \<noteq> []"
  {
    assume "Decimal (strip a) = Inl y"
    with Decimal_error [of "strip a" y] date cat desc amt show "from_row r = Inl InvalidAmount"
      by (simp add: from_row_def from_row_amount_def InvalidAmount_def)
  }
  {
    assume "Decimal (strip a) = Inr amt \<and> dec_sgn amt \<in> {Some (- 1), Some 0}"
    with dec_le_zero_nonpositive [of amt] date cat desc amt
    show "from_row r = Inl NonPositiveAmount"
      by (simp add: from_row_def from_row_amount_def NonPositiveAmount_def)
  }
  {
    assume "Decimal (strip a) = Inr amt \<and> dec_sgn amt = Some 1"
    with dec_le_zero_positive [of amt] date cat desc amt
    show "from_row r = Inr \<lparr>date = d, category = strip c, amount = amt, description = strip t\<rparr>"
      by (simp add: from_row_def from_row_amount_def)
  }
next
  assume ok: "from_row r = Inr e"
  then obtain d c t amt where
    d: "from_row_date r = Inr d" and c: "row_get r ''category'' = Some c"
    and t: "row_get r ''description'' = Some t" and le: "dec_le_zero amt = Inr False"
    and e: "e = \<lparr>date = d, category = strip c, amount = amt, description = strip t\<rparr>"
    by (auto simp: from_row_def split: if_splits sum.splits option.splits error.splits bool.splits)
  from d have "valid_date d"
    by (auto simp: from_row_date_def split: option.splits if_splits dest: strptime_valid)
  then show "valid_date (date e)" by (simp add: e)
  from le have "dec_sgn amt = Some 1"
    by (auto simp: dec_le_zero_def dec_sgn_def signed_def sgn_if split: decimal.splits if_splits)
  then show "dec_sgn (amount e) = Some 1" by (simp add: e)
  show "trimmed (category e)" "trimmed (description e)"
    by (simp_all add: e trimmed_strip)
  show "\<exists>c t. row_get r ''category'' = Some c \<and> row_get r ''description'' = Some t
           \<and> category e = strip c \<and> description e = strip t
           \<and> (category e = [] \<longleftrightarrow> list_all is_space c)
           \<and> (description e = [] \<longleftrightarrow> list_all is_space t)"
    using c t by (simp add: e strip_blank)
qed

theorem from_row_causes_witness:
  "from_row lunch_row = Inr lunch"
proof -
  have row: "\<not> row_is_empty lunch_row" "row_get lunch_row ''date'' = Some ''2025-01-15''"
    "row_get lunch_row ''category'' = Some '' Food''"
    "row_get lunch_row ''description'' = Some ''Lunch ''"
    "row_get lunch_row ''amount'' = Some ''250.00''"
    by (simp_all add: lunch_row_def row_of_def row_eval)
  have texts: "strip '' Food'' = ''Food''" "strip ''Lunch '' = ''Lunch''"
    by (simp_all add: string_eval)
  have sgn: "dec_sgn (Finite False 25000 (- 2)) = Some 1"
    by (simp add: dec_sgn_def signed_def)
  show ?thesis
    using from_row_causes [where r = lunch_row and ds = "''2025-01-15''"
        and d = "\<lparr>year = 2025, month = 1, day = 15\<rparr>" and c = "'' Food''" and t = "''Lunch ''"
        and a = "''250.00''" and amt = "Finite False 25000 (- 2)"]
    by (simp add: row texts sgn strip_plain strptime_lunch decimal_250 lunch_def)
qed

subsection \<open>Exact decimal arithmetic within the precision of the context\<close>

lemma length_digits_of_le: "n < 10 ^ k \<Longrightarrow> 0 < k \<Longrightarrow> length (digits_of n) \<le> k"
proof (induction n arbitrary: k rule: digits_of.induct)
  case (1 n)
  show ?case
  proof (cases "n < 10")
    case True
    with "1.prems" show ?thesis by (simp add: digits_of.simps [of n])
  next
    case False
    with "1.prems" obtain j where k: "k = Suc j" by (cases k) auto
    from False "1.prems" k have j: "0 < j" by (cases j) auto
    from "1.prems" k have "n div 10 < 10 ^ j" by (simp add: less_mult_imp_div_less mult.commute)
    with "1.IH" [OF False this j] False k show ?thesis
      by (simp add: digits_of.simps [of n])
  qed
qed

lemma units_aligned:
  assumes "- int q \<le> e1" "- int q \<le> e2"
  shows "(signed s1 c1 * 10 ^ nat (e1 - min e1 e2) + signed s2 c2 * 10 ^ nat (e2 - min e1 e2))
           * 10 ^ nat (min e1 e2 + int q)
         = signed s1 c1 * 10 ^ nat (e1 + int q) + signed s2 c2 * 10 ^ nat (e2 + int q)"
proof -
  have 1: "nat (e1 - min e1 e2) + nat (min e1 e2 + int q) = nat (e1 + int q)"
    using assms by linarith
  have 2: "nat (e2 - min e1 e2) + nat (min e1 e2 + int q) = nat (e2 + int q)"
    using assms by linarith
  show ?thesis
    by (simp add: distrib_right mult.assoc power_add [symmetric] 1 2)
qed

lemma dec_fix_small:
  assumes "0 < c" "c < 10 ^ 28" "Etiny \<le> e" "e < 28"
  shows "dec_fix (Finite s c e) = Inr (Finite s c e)"
proof -
  have len: "length (digits_of c) \<le> 28"
    using assms(2) by (rule length_digits_of_le) simp
  define x where "x = int (length (digits_of c)) + e - int prec"
  have x: "x \<le> e" using len by (simp add: x_def prec_def)
  then have 1: "\<not> Etop < x"
    using assms(4) by (simp add: Etop_def Emax_def prec_def)
  have 2: "\<not> e < max x Etiny"
    using x assms(3) by simp
  show ?thesis
    using assms(1) 1 2 by (simp add: dec_fix_def x_def [symmetric])
qed

text \<open>One addition is exact when its exact result has at most 28 digits.\<close>

lemma add_numbers_exact:
  assumes q: "q \<le> 1000026"
    and e: "- int q \<le> e1" "- int q \<le> e2"
    and small: "\<bar>units q (Finite s1 c1 e1) + units q (Finite s2 c2 e2)\<bar> < 10 ^ 28"
  shows "\<exists>s c e'. add_numbers (Finite s1 c1 e1) (Finite s2 c2 e2) = Inr (Finite s c e')
           \<and> - int q \<le> e'
           \<and> units q (Finite s c e') = units q (Finite s1 c1 e1) + units q (Finite s2 c2 e2)"
proof -
  define m where "m = min e1 e2"
  define i where "i = signed s1 c1 * 10 ^ nat (e1 - m) + signed s2 c2 * 10 ^ nat (e2 - m)"
  define total where "total = units q (Finite s1 c1 e1) + units q (Finite s2 c2 e2)"
  have m: "- int q \<le> m" using e by (simp add: m_def)
  have tiny: "Etiny \<le> m" using m q by (simp add: Etiny_def Emin_def prec_def)
  have sum: "i * 10 ^ nat (m + int q) = total"
    unfolding i_def m_def units_def total_def using units_aligned [OF e] by simp
  have step: "add_numbers (Finite s1 c1 e1) (Finite s2 c2 e2) =
      (if i = 0 then dec_fix (Finite (c1 = 0 \<and> c2 = 0 \<and> s1 \<and> s2) 0 m)
       else dec_fix (Finite (i < 0) (nat \<bar>i\<bar>) m))"
    by (simp add: i_def m_def Let_def)
  show ?thesis
  proof (cases "i = 0")
    case True
    define e' where "e' = min (max m Etiny) Emax"
    have "add_numbers (Finite s1 c1 e1) (Finite s2 c2 e2)
        = Inr (Finite (c1 = 0 \<and> c2 = 0 \<and> s1 \<and> s2) 0 e')"
      unfolding step using True by (simp add: dec_fix_def e'_def)
    moreover have "- int q \<le> e'"
      using m by (simp add: e'_def Emax_def)
    moreover have "units q (Finite (c1 = 0 \<and> c2 = 0 \<and> s1 \<and> s2) 0 e') = 0"
      by (simp add: units_def signed_def)
    moreover have "total = 0"
      using sum True by simp
    ultimately show ?thesis
      unfolding total_def by metis
  next
    case False
    have prod: "\<bar>i\<bar> * 10 ^ nat (m + int q) < 10 ^ 28"
      using small sum by (simp add: abs_mult [symmetric] total_def)
    have one: "1 \<le> \<bar>i\<bar>" using False by simp
    have "\<bar>i\<bar> \<le> \<bar>i\<bar> * 10 ^ nat (m + int q)"
      by (simp add: mult_le_cancel_left1)
    from this prod have i28: "\<bar>i\<bar> < 10 ^ 28"
      by (rule le_less_trans)
    have "10 ^ nat (m + int q) \<le> \<bar>i\<bar> * 10 ^ nat (m + int q)"
      using one by simp
    from this prod have p28: "(10::int) ^ nat (m + int q) < 10 ^ 28"
      by (rule le_less_trans)
    have "nat (m + int q) < 28"
    proof (rule ccontr)
      assume "\<not> nat (m + int q) < 28"
      then have "28 \<le> nat (m + int q)" by simp
      then have "(10::int) ^ 28 \<le> 10 ^ nat (m + int q)"
        by (rule power_increasing) simp
      with p28 have "(10::int) ^ nat (m + int q) < 10 ^ nat (m + int q)"
        by (rule less_le_trans)
      then show False by simp
    qed
    then have m28: "m < 28" by linarith
    have c: "0 < nat \<bar>i\<bar>" "nat \<bar>i\<bar> < 10 ^ 28"
      using False i28 by (simp_all add: nat_less_iff)
    have "dec_fix (Finite (i < 0) (nat \<bar>i\<bar>) m) = Inr (Finite (i < 0) (nat \<bar>i\<bar>) m)"
      using c tiny m28 by (rule dec_fix_small)
    then have "add_numbers (Finite s1 c1 e1) (Finite s2 c2 e2)
        = Inr (Finite (i < 0) (nat \<bar>i\<bar>) m)"
      unfolding step using False by simp
    moreover have "signed (i < 0) (nat \<bar>i\<bar>) = i"
      by (simp add: signed_def)
    then have "units q (Finite (i < 0) (nat \<bar>i\<bar>) m) = total"
      using sum by (simp add: units_def)
    ultimately show ?thesis
      unfolding total_def using m by metis
  qed
qed

lemma dec_add_finite:
  "dec_add (Finite s1 c1 e1) (Finite s2 c2 e2) = add_numbers (Finite s1 c1 e1) (Finite s2 c2 e2)"
  by (simp add: dec_add_def check_nans_def)

lemma dec_sub_finite:
  "dec_sub (Finite s1 c1 e1) (Finite s2 c2 e2)
     = add_numbers (Finite s1 c1 e1) (Finite (\<not> s2) c2 e2)"
  by (simp add: dec_sub_def check_nans_def dec_neg_def)

lemma units_neg: "units q (Finite (\<not> s) c e) = - units q (Finite s c e)"
  by (simp add: units_def signed_def)

text \<open>A sum from the left is exact when the amounts are not negative and the exact sum
  has at most 28 digits.\<close>

lemma sum_from_exact:
  assumes q: "q \<le> 1000026"
  shows "- int q \<le> ea \<Longrightarrow> 0 \<le> units q (Finite sa ca ea) \<Longrightarrow>
         \<forall>x\<in>set xs. fixed_point q x \<and> 0 \<le> units q x \<Longrightarrow>
         units q (Finite sa ca ea) + sum_list (map (units q) xs) < 10 ^ 28 \<Longrightarrow>
         \<exists>t. sum_from (Finite sa ca ea) xs = Inr t \<and> fixed_point q t
           \<and> units q t = units q (Finite sa ca ea) + sum_list (map (units q) xs)"
proof (induction xs arbitrary: sa ca ea)
  case Nil
  then show ?case by (simp add: fixed_point_def)
next
  case (Cons x xs)
  from Cons.prems(3) obtain s2 c2 e2 where x: "x = Finite s2 c2 e2" and e2: "- int q \<le> e2"
    by (cases x) (auto simp: fixed_point_def)
  have rest: "0 \<le> sum_list (map (units q) xs)"
    using Cons.prems(3) by (intro sum_list_nonneg) auto
  have x0: "0 \<le> units q x" using Cons.prems(3) by simp
  define u where "u = units q (Finite sa ca ea) + units q x"
  have u: "0 \<le> u" "u + sum_list (map (units q) xs) < 10 ^ 28"
    using Cons.prems(2,4) x0 by (simp_all add: u_def)
  then have "\<bar>u\<bar> < 10 ^ 28" using rest by linarith
  then have "\<bar>units q (Finite sa ca ea) + units q (Finite s2 c2 e2)\<bar> < 10 ^ 28"
    by (simp add: u_def x)
  from add_numbers_exact [OF q Cons.prems(1) e2 this]
  obtain s c e' where
    add: "add_numbers (Finite sa ca ea) (Finite s2 c2 e2) = Inr (Finite s c e')"
    and e': "- int q \<le> e'" and ue: "units q (Finite s c e') = u"
    by (auto simp: u_def x)
  have "\<forall>x\<in>set xs. fixed_point q x \<and> 0 \<le> units q x"
    using Cons.prems(3) by simp
  from Cons.IH [OF e' _ this, of s c] u ue
  obtain t where "sum_from (Finite s c e') xs = Inr t" "fixed_point q t"
    "units q t = u + sum_list (map (units q) xs)"
    by auto
  then show ?case
    using add by (simp add: x dec_add_finite u_def)
qed

lemma list_expenses_wanted:
  "list_expenses mk cat st = (filter (wanted (supplied mk) (supplied cat)) (expenses st), st)"
  by (auto simp: list_expenses_def wanted_def supplied_def Let_def split: option.split
      intro: filter_cong)

lemma total_expenses_eval:
  "total_expenses mk st
     = (sum_from (Finite False 0 0)
          (map amount (filter (wanted (supplied mk) None) (expenses st))), st)"
  by (simp add: total_expenses_def list_expenses_wanted supplied_def)

lemma month_key_examples:
  "month_key (date taxi) = ''2025-01''" "month_key (date huge) = ''2025-01''"
  "month_key (date tiny) = ''2025-01''"
  by (simp_all add: taxi_def huge_def tiny_def date_eval digit_eval)

lemma add_huge_tiny:
  "dec_add (Finite False 1000000000000000000000000000 1) (Finite False (Suc 0) 0)
     = Inr (Finite False 1000000000000000000000000000 1)"
  by (simp add: arith_eval digits_of.simps)

lemma add_zero_huge:
  "dec_add (Finite False 0 0) (Finite False 10000000000000000000000000000 0)
     = Inr (Finite False 1000000000000000000000000000 1)"
  by (simp add: arith_eval digits_of.simps)

lemma add_zero_lunch:
  "dec_add (Finite False 0 0) (Finite False 25000 (- 2)) = Inr (Finite False 25000 (- 2))"
  by (simp add: arith_eval digits_of.simps)

text \<open>A number with the single digit 1 below the smallest exponent of the context is
  rounded to zero at that exponent.\<close>

lemma dec_fix_underflow:
  assumes "e < Etiny"
  shows "dec_fix (Finite s 1 e) = Inr (Finite s 0 Etiny)"
proof -
  define k where "k = nat (Etiny - e)"
  have k: "1 \<le> k" using assms by (simp add: k_def)
  then have "(10::nat) ^ 1 \<le> 10 ^ k" by (intro power_increasing) simp_all
  then have big: "(10::nat) \<le> 10 ^ k" by simp
  then have one: "(1::nat) < 10 ^ k" by simp
  have q: "(1::nat) div 10 ^ k = 0" "(1::nat) mod 10 ^ k = 1"
    using one by (simp_all only: div_less mod_less)
  have r: "\<not> 10 ^ k < (2::nat)" "(2::nat) \<noteq> 10 ^ k"
    using big by simp_all
  have d: "length (digits_of 1) = 1" "length (digits_of 0) = 1" "length (digits_of (Suc 0)) = 1"
    by (simp_all add: digits_of.simps)
  define x where "x = int (length (digits_of 1)) + e - int prec"
  have x: "\<not> Etop < x" "max x Etiny = Etiny"
    using assms by (simp_all add: x_def d prec_def Etop_def Etiny_def Emax_def Emin_def)
  have top: "\<not> Etop < Etiny"
    by (simp add: prec_def Etop_def Etiny_def Emax_def Emin_def)
  have c: "(1::nat) \<noteq> 0" by simp
  show ?thesis
    unfolding dec_fix_def decimal.case Let_def x_def [symmetric]
    using x top q r d k assms c
    by (simp add: k_def [symmetric] prec_def)
qed

lemma add_zero_small:
  assumes "e < Etiny"
  shows "dec_add (Finite False 0 0) (Finite False 1 e) = Inr (Finite False 0 Etiny)"
proof -
  from assms have e: "e < 0" by (simp add: Etiny_def Emin_def prec_def)
  then have "add_numbers (Finite False 0 0) (Finite False 1 e) = dec_fix (Finite False 1 e)"
    by (simp add: signed_def min_def)
  with dec_fix_underflow [OF assms] show ?thesis
    by (simp add: dec_add_def check_nans_def)
qed

lemma sub_small_zero:
  assumes "e < Etiny"
  shows "dec_sub (Finite False 1 e) (Finite False 0 0) = Inr (Finite False 0 Etiny)"
proof -
  from assms have e: "e < 0" by (simp add: Etiny_def Emin_def prec_def)
  then have "add_numbers (Finite False 1 e) (Finite True 0 0) = dec_fix (Finite False 1 e)"
    by (simp add: signed_def min_def)
  with dec_fix_underflow [OF assms] show ?thesis
    by (simp add: dec_sub_def check_nans_def dec_neg_def)
qed

lemma add_zero_speck:
  "dec_add (Finite False 0 0) (Finite False 1 (- 2000000)) = Inr (Finite False 0 (- 1000026))"
  "dec_add (Finite False 0 0) (Finite False (Suc 0) (- 2000000))
     = Inr (Finite False 0 (- 1000026))"
  using add_zero_small [of "- 2000000"] by (simp_all add: Etiny_def Emin_def prec_def)

lemma sub_speck_zero:
  "dec_sub (Finite False 1 (- 2000000)) (Finite False 0 0) = Inr (Finite False 0 (- 1000026))"
  "dec_sub (Finite False (Suc 0) (- 2000000)) (Finite False 0 0)
     = Inr (Finite False 0 (- 1000026))"
  using sub_small_zero [of "- 2000000"] by (simp_all add: Etiny_def Emin_def prec_def)

text \<open>
  Claim C8, as the specification has it: for every month key given or not,
  \<^verbatim>\<open>total_expenses\<close> is the exact decimal sum of the amounts of the expenses of that
  month. It fails for the empty month key, which the code takes as not given (the
  total of a month without expenses is then not zero); it fails beyond the 28
  digits of the decimal context: \<open>10\<^sup>2\<^sup>8\<close> plus 1 is computed as \<open>10\<^sup>2\<^sup>8\<close>; and it fails below
  the smallest exponent of the context, \<open>- 1000026\<close>: the total of the single amount
  \<^verbatim>\<open>1E-2000000\<close>, which is above zero, is computed as a zero.
\<close>

theorem total_expenses_exact_counterexample:
  "fst (total_expenses (Some []) (empty_state\<lparr>expenses := [lunch]\<rparr>))
     = Inr (Finite False 25000 (- 2))
   \<and> filter (wanted (Some []) None) [lunch] = []
   \<and> fst (total_expenses None (empty_state\<lparr>expenses := [huge, tiny]\<rparr>))
     = Inr (Finite False 1000000000000000000000000000 1)
   \<and> units 0 (Finite False 1000000000000000000000000000 1)
     \<noteq> units 0 (amount huge) + units 0 (amount tiny)
   \<and> fst (total_expenses None (empty_state\<lparr>expenses := [speck]\<rparr>))
     = Inr (Finite False 0 (- 1000026))
   \<and> dec_sgn (Finite False 0 (- 1000026)) = Some 0 \<and> dec_sgn (amount speck) = Some 1"
proof -
  have 1: "fst (total_expenses (Some []) (empty_state\<lparr>expenses := [lunch]\<rparr>))
      = Inr (Finite False 25000 (- 2))"
    by (simp add: total_expenses_eval supplied_def wanted_def)
      (simp add: lunch_def add_zero_lunch)
  have 2: "filter (wanted (Some []) None) [lunch] = []"
    by (simp add: wanted_def month_key_lunch)
  have 3: "fst (total_expenses None (empty_state\<lparr>expenses := [huge, tiny]\<rparr>))
      = Inr (Finite False 1000000000000000000000000000 1)"
    by (simp add: total_expenses_eval supplied_def wanted_def)
      (simp add: huge_def tiny_def add_zero_huge add_huge_tiny)
  have 4: "units 0 (Finite False 1000000000000000000000000000 1)
      \<noteq> units 0 (amount huge) + units 0 (amount tiny)"
    by (simp add: units_def signed_def huge_def tiny_def)
  have 5: "fst (total_expenses None (empty_state\<lparr>expenses := [speck]\<rparr>))
      = Inr (Finite False 0 (- 1000026))"
    by (simp add: total_expenses_eval supplied_def wanted_def)
      (simp add: speck_def add_zero_speck)
  have 6: "dec_sgn (Finite False 0 (- 1000026)) = Some 0" "dec_sgn (amount speck) = Some 1"
    by (simp_all add: dec_sgn_def signed_def speck_def)
  from 1 2 3 4 5 6 show ?thesis by (intro conjI)
qed

text \<open>
  Claim C8, amended. For every stored expense sequence and every month key, where a
  key left out or empty selects every expense, \<^verbatim>\<open>total_expenses\<close> is the decimal sum,
  from the left and starting from zero, of the amounts of the selected expenses, in
  decimal (never binary floating-point) arithmetic; it is zero when no expense is
  selected; and it is the exact sum whenever the amounts are finite and not negative
  with at most \<open>q\<close> digits after the point, where \<open>q\<close> is at most 1000026 (the smallest
  exponent of the decimal context is \<open>- 1000026\<close>), and the exact sum, in units of
  \<open>10\<^sup>-\<^sup>q\<close>, is below \<open>10\<^sup>2\<^sup>8\<close>, the precision of the decimal context.
\<close>

theorem total_expenses_sum:
  "total_expenses mk st
     = (sum_from (Finite False 0 0)
          (map amount (filter (wanted (supplied mk) None) (expenses st))), st)
   \<and> (filter (wanted (supplied mk) None) (expenses st) = [] \<longrightarrow>
        fst (total_expenses mk st) = Inr (Finite False 0 0))
   \<and> (q \<le> 1000026
        \<and> (\<forall>e\<in>set (filter (wanted (supplied mk) None) (expenses st)).
              fixed_point q (amount e) \<and> 0 \<le> units q (amount e))
        \<and> (\<Sum>e\<leftarrow>filter (wanted (supplied mk) None) (expenses st). units q (amount e)) < 10 ^ 28 \<longrightarrow>
        (\<exists>t. fst (total_expenses mk st) = Inr t \<and> fixed_point q t
           \<and> units q t
             = (\<Sum>e\<leftarrow>filter (wanted (supplied mk) None) (expenses st). units q (amount e))))"
proof (intro conjI impI)
  show "total_expenses mk st
     = (sum_from (Finite False 0 0)
          (map amount (filter (wanted (supplied mk) None) (expenses st))), st)"
    by (rule total_expenses_eval)
next
  assume "filter (wanted (supplied mk) None) (expenses st) = []"
  then show "fst (total_expenses mk st) = Inr (Finite False 0 0)"
    by (simp add: total_expenses_eval)
next
  define xs where "xs = map amount (filter (wanted (supplied mk) None) (expenses st))"
  assume h: "q \<le> 1000026
        \<and> (\<forall>e\<in>set (filter (wanted (supplied mk) None) (expenses st)).
              fixed_point q (amount e) \<and> 0 \<le> units q (amount e))
        \<and> (\<Sum>e\<leftarrow>filter (wanted (supplied mk) None) (expenses st). units q (amount e)) < 10 ^ 28"
  then have q: "q \<le> 1000026" and xs: "\<forall>x\<in>set xs. fixed_point q x \<and> 0 \<le> units q x"
    and small: "units q (Finite False 0 0) + sum_list (map (units q) xs) < 10 ^ 28"
    by (auto simp: xs_def units_def signed_def comp_def)
  have "- int q \<le> 0" "0 \<le> units q (Finite False 0 0)"
    by (simp_all add: units_def signed_def)
  from sum_from_exact [OF q this xs small]
  show "\<exists>t. fst (total_expenses mk st) = Inr t \<and> fixed_point q t
           \<and> units q t
             = (\<Sum>e\<leftarrow>filter (wanted (supplied mk) None) (expenses st). units q (amount e))"
    by (auto simp: total_expenses_eval xs_def units_def signed_def comp_def)
qed

theorem total_expenses_sum_witness:
  "\<exists>t. fst (total_expenses (Some ''2025-01'') (empty_state\<lparr>expenses := [lunch, taxi]\<rparr>)) = Inr t
     \<and> fixed_point 2 t \<and> units 2 t = 35000"
proof -
  have sel: "filter (wanted (supplied (Some ''2025-01'')) None)
      (expenses (empty_state\<lparr>expenses := [lunch, taxi]\<rparr>)) = [lunch, taxi]"
    by (simp add: wanted_def supplied_def month_key_lunch month_key_examples)
  have amounts: "fixed_point 2 (amount lunch)" "fixed_point 2 (amount taxi)"
    "units 2 (amount lunch) = 25000" "units 2 (amount taxi) = 10000"
    by (simp_all add: lunch_def taxi_def fixed_point_def units_def signed_def)
  have "\<exists>t. fst (total_expenses (Some ''2025-01'') (empty_state\<lparr>expenses := [lunch, taxi]\<rparr>))
        = Inr t \<and> fixed_point 2 t
      \<and> units 2 t = (\<Sum>e\<leftarrow>[lunch, taxi]. units 2 (amount e))"
    using total_expenses_sum [of "Some ''2025-01''" "empty_state\<lparr>expenses := [lunch, taxi]\<rparr>" 2,
        THEN conjunct2, THEN conjunct2]
    unfolding sel by (simp add: amounts)
  then show ?thesis
    by (simp add: amounts)
qed

subsection \<open>The budget status\<close>

lemma ge_zero_units: "(c = 0 \<or> \<not> s) \<longleftrightarrow> 0 \<le> units q (Finite s c e)"
proof -
  have "\<not> (10::int) ^ nat (e + int q) \<le> 0"
    by (simp add: not_le)
  then show ?thesis
    by (cases s) (simp_all add: units_def signed_def zero_le_mult_iff mult_le_0_iff)
qed

lemma dec_ge_zero_sgn:
  "dec_ge_zero a = Inr ok \<Longrightarrow>
     (ok \<longleftrightarrow> dec_sgn a \<in> {Some 0, Some 1}) \<and> (\<not> ok \<longleftrightarrow> dec_sgn a = Some (- 1))"
  by (auto simp: dec_ge_zero_def dec_sgn_def signed_def sgn_if split: decimal.splits if_splits)

lemma add_zero_tiny:
  "dec_add (Finite False 0 0) (Finite False 1 0) = Inr (Finite False 1 0)"
  "dec_add (Finite False 0 0) (Finite False (Suc 0) 0) = Inr (Finite False (Suc 0) 0)"
  by (simp_all add: arith_eval digits_of.simps)

lemma sub_lavish:
  "dec_sub (Finite False 1 29) (Finite False 1 0)
     = Inr (Finite False 1000000000000000000000000000 2)"
  by (simp add: arith_eval digits_of.simps)

lemma sub_lavish_Suc:
  "dec_sub (Finite False (Suc 0) 29) (Finite False (Suc 0) 0)
     = Inr (Finite False 1000000000000000000000000000 2)"
  using sub_lavish by simp

text \<open>
  Claim C1, as the specification has it: without a budget the report gives budget and
  remaining as absent values and not as a not-a-number, and with a budget the remaining
  is exactly budget minus total. The code puts the decimal not-a-number into both
  fields. Its subtraction is exact only within the decimal context: with the budget
  \<open>10\<^sup>2\<^sup>9\<close> and the total 1 the remaining is computed as \<open>10\<^sup>2\<^sup>9\<close>, beyond 28 digits; with
  the budget \<^verbatim>\<open>1E-2000000\<close> and the total 0 the remaining is computed as a zero, below
  the smallest exponent \<open>- 1000026\<close>.
\<close>

theorem budget_status_no_budget_counterexample:
  "fst (budget_status ''2025-02'' scenario)
     = Inr \<lparr>r_month = ''2025-02'', r_budget = NaN False False 0, r_total = Finite False 0 0,
            r_remaining = NaN False False 0, r_status = ''no_budget''\<rparr>
   \<and> fst (budget_status ''2025-01'' lavish)
     = Inr \<lparr>r_month = ''2025-01'', r_budget = Finite False 1 29, r_total = Finite False 1 0,
            r_remaining = Finite False 1000000000000000000000000000 2,
            r_status = ''within_budget''\<rparr>
   \<and> units 0 (Finite False 1000000000000000000000000000 2)
     \<noteq> units 0 (Finite False 1 29) - units 0 (Finite False 1 0)
   \<and> fst (budget_status ''2025-01'' frugal)
     = Inr \<lparr>r_month = ''2025-01'', r_budget = Finite False 1 (- 2000000),
            r_total = Finite False 0 0, r_remaining = Finite False 0 (- 1000026),
            r_status = ''within_budget''\<rparr>
   \<and> dec_sgn (Finite False 0 (- 1000026)) = Some 0
   \<and> dec_sgn (Finite False 1 (- 2000000)) = Some 1"
proof -
  have 1: "fst (budget_status ''2025-02'' scenario)
     = Inr \<lparr>r_month = ''2025-02'', r_budget = NaN False False 0, r_total = Finite False 0 0,
            r_remaining = NaN False False 0, r_status = ''no_budget''\<rparr>"
    by (simp add: budget_status_def total_expenses_eval get_budget_def dict_get_def scenario_def
        supplied_def wanted_def month_key_lunch empty_state_def)
  have "total_expenses (Some ''2025-01'') lavish = (Inr (Finite False 1 0), lavish)"
    by (simp add: total_expenses_eval supplied_def wanted_def lavish_def month_key_examples)
      (simp add: tiny_def add_zero_tiny)
  then have 2: "fst (budget_status ''2025-01'' lavish)
     = Inr \<lparr>r_month = ''2025-01'', r_budget = Finite False 1 29, r_total = Finite False 1 0,
            r_remaining = Finite False 1000000000000000000000000000 2,
            r_status = ''within_budget''\<rparr>"
    by (simp add: budget_status_def get_budget_def dict_get_def lavish_def sub_lavish
        sub_lavish_Suc dec_ge_zero_def)
  have 3: "units 0 (Finite False 1000000000000000000000000000 2)
     \<noteq> units 0 (Finite False 1 29) - units 0 (Finite False 1 0)"
    by (simp add: units_def signed_def)
  have "total_expenses (Some ''2025-01'') frugal = (Inr (Finite False 0 0), frugal)"
    by (simp add: total_expenses_eval frugal_def empty_state_def)
  then have 4: "fst (budget_status ''2025-01'' frugal)
     = Inr \<lparr>r_month = ''2025-01'', r_budget = Finite False 1 (- 2000000),
            r_total = Finite False 0 0, r_remaining = Finite False 0 (- 1000026),
            r_status = ''within_budget''\<rparr>"
    by (simp add: budget_status_def get_budget_def dict_get_def frugal_def sub_speck_zero
        dec_ge_zero_def)
  have 5: "dec_sgn (Finite False 0 (- 1000026)) = Some 0"
    "dec_sgn (Finite False 1 (- 2000000)) = Some 1"
    by (simp_all add: dec_sgn_def signed_def)
  from 1 2 3 4 5 show ?thesis by (intro conjI)
qed

text \<open>
  Claim C1, amended. For every month key, \<^verbatim>\<open>budget_status\<close> takes the total from
  \<^verbatim>\<open>total_expenses\<close> of that key. When no budget is set, the report is tagged
  \<open>no_budget\<close>, carries the total, and holds the decimal not-a-number as budget and as
  remaining. When a budget is set, a report that is returned carries the budget and the
  total, its remaining is the decimal difference budget minus total, and its status is
  \<open>within_budget\<close> exactly when the remaining is zero or above, \<open>exceeded_budget\<close>
  exactly when it is below zero. When moreover budget and total are finite with at most
  \<open>q\<close> digits after the point, where \<open>q\<close> is at most 1000026 (the smallest exponent of
  the decimal context is \<open>- 1000026\<close>), and their exact difference, in units of \<open>10\<^sup>-\<^sup>q\<close>,
  is below \<open>10\<^sup>2\<^sup>8\<close> in size, the report is returned, the remaining is exactly budget minus
  total, and the status is \<open>within_budget\<close> exactly when the total is at most the budget,
  a total equal to the budget included.
\<close>

theorem budget_status_report:
  assumes tot: "fst (total_expenses (Some k) st) = Inr tot"
  shows
  "(fst (get_budget k st) = None \<longrightarrow>
      fst (budget_status k st)
        = Inr \<lparr>r_month = k, r_budget = NaN False False 0, r_total = tot,
               r_remaining = NaN False False 0, r_status = ''no_budget''\<rparr>)
   \<and> (fst (get_budget k st) = Some b \<and> fst (budget_status k st) = Inr r \<longrightarrow>
        r_month r = k \<and> r_budget r = b \<and> r_total r = tot
      \<and> dec_sub b tot = Inr (r_remaining r)
      \<and> (r_status r = ''within_budget'' \<longleftrightarrow> dec_sgn (r_remaining r) \<in> {Some 0, Some 1})
      \<and> (r_status r = ''exceeded_budget'' \<longleftrightarrow> dec_sgn (r_remaining r) = Some (- 1)))
   \<and> (fst (get_budget k st) = Some b \<and> q \<le> 1000026 \<and> fixed_point q b \<and> fixed_point q tot
        \<and> \<bar>units q b - units q tot\<bar> < 10 ^ 28 \<longrightarrow>
        (\<exists>r. fst (budget_status k st) = Inr r \<and> r_budget r = b \<and> r_total r = tot
           \<and> fixed_point q (r_remaining r)
           \<and> units q (r_remaining r) = units q b - units q tot
           \<and> (r_status r = ''within_budget'' \<longleftrightarrow> units q tot \<le> units q b)
           \<and> (r_status r = ''exceeded_budget'' \<longleftrightarrow> units q b < units q tot)))"
proof -
  have total: "total_expenses (Some k) st = (Inr tot, st)"
    using tot by (simp add: total_expenses_eval)
  have 1: "fst (get_budget k st) = None \<longrightarrow>
      fst (budget_status k st)
        = Inr \<lparr>r_month = k, r_budget = NaN False False 0, r_total = tot,
               r_remaining = NaN False False 0, r_status = ''no_budget''\<rparr>"
    by (simp add: budget_status_def total get_budget_def)
  have 2: "fst (get_budget k st) = Some b \<and> fst (budget_status k st) = Inr r \<longrightarrow>
        r_month r = k \<and> r_budget r = b \<and> r_total r = tot
      \<and> dec_sub b tot = Inr (r_remaining r)
      \<and> (r_status r = ''within_budget'' \<longleftrightarrow> dec_sgn (r_remaining r) \<in> {Some 0, Some 1})
      \<and> (r_status r = ''exceeded_budget'' \<longleftrightarrow> dec_sgn (r_remaining r) = Some (- 1))"
  proof
    assume a: "fst (get_budget k st) = Some b \<and> fst (budget_status k st) = Inr r"
    then obtain rem ok where sub: "dec_sub b tot = Inr rem" and ge: "dec_ge_zero rem = Inr ok"
      and r: "r = \<lparr>r_month = k, r_budget = b, r_total = tot, r_remaining = rem,
                   r_status = (if ok then ''within_budget'' else ''exceeded_budget'')\<rparr>"
      by (auto simp: budget_status_def total get_budget_def split: sum.splits)
    from dec_ge_zero_sgn [OF ge] sub show "r_month r = k \<and> r_budget r = b \<and> r_total r = tot
      \<and> dec_sub b tot = Inr (r_remaining r)
      \<and> (r_status r = ''within_budget'' \<longleftrightarrow> dec_sgn (r_remaining r) \<in> {Some 0, Some 1})
      \<and> (r_status r = ''exceeded_budget'' \<longleftrightarrow> dec_sgn (r_remaining r) = Some (- 1))"
      by (cases ok) (simp_all add: r)
  qed
  have 3: "\<exists>r. fst (budget_status k st) = Inr r \<and> r_budget r = b \<and> r_total r = tot
           \<and> fixed_point q (r_remaining r)
           \<and> units q (r_remaining r) = units q b - units q tot
           \<and> (r_status r = ''within_budget'' \<longleftrightarrow> units q tot \<le> units q b)
           \<and> (r_status r = ''exceeded_budget'' \<longleftrightarrow> units q b < units q tot)"
    if h: "fst (get_budget k st) = Some b \<and> q \<le> 1000026 \<and> fixed_point q b \<and> fixed_point q tot
        \<and> \<bar>units q b - units q tot\<bar> < 10 ^ 28"
  proof -
    from h obtain sb cb eb where b: "b = Finite sb cb eb" and eb: "- int q \<le> eb"
      by (cases b) (auto simp: fixed_point_def)
    from h obtain st' ct et where t: "tot = Finite st' ct et" and et: "- int q \<le> et"
      by (cases tot) (auto simp: fixed_point_def)
    from h have q: "q \<le> 1000026" by simp
    have "\<bar>units q (Finite sb cb eb) + units q (Finite (\<not> st') ct et)\<bar> < 10 ^ 28"
      using h by (simp add: b t units_neg)
    from add_numbers_exact [OF q eb et this]
    obtain s c e' where
      sub: "dec_sub b tot = Inr (Finite s c e')" and e': "- int q \<le> e'"
      and u: "units q (Finite s c e') = units q b - units q tot"
      by (auto simp: b t dec_sub_finite units_neg)
    have ge: "dec_ge_zero (Finite s c e') = Inr (0 \<le> units q b - units q tot)"
      using ge_zero_units [of c s q e'] u by (simp add: dec_ge_zero_def)
    show ?thesis
      using h sub e' u ge
      by (simp add: budget_status_def total get_budget_def fixed_point_def)
  qed
  from 1 2 3 show ?thesis by blast
qed

lemma total_scenario:
  "fst (total_expenses (Some ''2025-01'') scenario) = Inr (Finite False 25000 (- 2))"
  by (simp add: total_expenses_eval supplied_def wanted_def scenario_def month_key_lunch)
    (simp add: lunch_def add_zero_lunch)

theorem budget_status_report_witness:
  "\<exists>r. fst (budget_status ''2025-01'' scenario) = Inr r
     \<and> r_budget r = Finite False 200000 (- 2) \<and> r_total r = Finite False 25000 (- 2)
     \<and> units 2 (r_remaining r) = 175000 \<and> r_status r = ''within_budget''"
proof -
  have b: "fst (get_budget ''2025-01'' scenario) = Some (Finite False 200000 (- 2))"
    by (simp add: get_budget_def dict_get_def scenario_def)
  have u: "units 2 (Finite False 200000 (- 2)) = 200000" "units 2 (Finite False 25000 (- 2)) = 25000"
    "fixed_point 2 (Finite False 200000 (- 2))" "fixed_point 2 (Finite False 25000 (- 2))"
    by (simp_all add: units_def signed_def fixed_point_def)
  show ?thesis
    using budget_status_report [OF total_scenario, where b = "Finite False 200000 (- 2)" and q = 2,
        THEN conjunct2, THEN conjunct2]
    by (auto simp: b u)
qed

subsection \<open>Digits\<close>

lemma digit_char_cases: "digit_char n \<in> set ''0123456789''"
  unfolding digit_char_def by (rule nth_mem) simp

lemma digit_val_digit_char: "digit_val (digit_char n) = n mod 10"
proof -
  have "n mod 10 < 10" by simp
  then have "n mod 10 = 0 \<or> n mod 10 = 1 \<or> n mod 10 = 2 \<or> n mod 10 = 3 \<or> n mod 10 = 4
      \<or> n mod 10 = 5 \<or> n mod 10 = 6 \<or> n mod 10 = 7 \<or> n mod 10 = 8 \<or> n mod 10 = 9"
    by arith
  then show ?thesis unfolding digit_char_def by (auto simp: digit_val_def)
qed

lemma is_digit_digit_char: "is_digit (digit_char n)"
  using digit_char_cases [of n] by (auto simp: is_digit_def)

lemma is_digit_plain:
  "is_digit c \<Longrightarrow> \<not> is_space c \<and> c \<noteq> CHR ''_'' \<and> c \<noteq> CHR ''-'' \<and> c \<noteq> CHR ''+''
     \<and> c \<noteq> CHR ''.''"
  by (auto simp: is_digit_def is_space_def)

lemma lower_char_digit: "is_digit c \<Longrightarrow> lower_char c = c"
  by (simp add: is_digit_def lower_char_def Let_def)

lemma digits_of_digits: "list_all is_digit (digits_of n)"
  by (induction n rule: digits_of.induct)
    (subst digits_of.simps, simp add: is_digit_digit_char)

lemma digits_of_not_Nil: "digits_of n \<noteq> []"
  by (subst digits_of.simps) simp

lemma nat_of_digits_snoc: "nat_of_digits (xs @ [c]) = 10 * nat_of_digits xs + digit_val c"
  by (simp add: nat_of_digits_def)

lemma nat_of_digits_less: "list_all is_digit ds \<Longrightarrow> nat_of_digits ds < 10 ^ length ds"
proof (induction ds rule: rev_induct)
  case Nil
  show ?case by (simp add: nat_of_digits_def)
next
  case (snoc c ds)
  then have n: "nat_of_digits ds < 10 ^ length ds" and c: "digit_val c \<le> 9"
    by (auto simp: is_digit_def digit_val_def)
  from n have "Suc (nat_of_digits ds) \<le> 10 ^ length ds" by simp
  then have "10 * Suc (nat_of_digits ds) \<le> 10 * 10 ^ length ds"
    by (rule mult_le_mono2)
  with c show ?case by (simp add: nat_of_digits_snoc)
qed

lemma length_digits_of_ge: "10 ^ k \<le> n \<Longrightarrow> k < length (digits_of n)"
proof (induction n arbitrary: k rule: digits_of.induct)
  case (1 n)
  show ?case
  proof (cases k)
    case 0
    with digits_of_not_Nil [of n] show ?thesis by simp
  next
    case (Suc j)
    with "1.prems" have big: "10 * 10 ^ j \<le> n" by simp
    have "(10::nat) \<le> 10 * 10 ^ j" by simp
    from this big have "10 \<le> n" by (rule le_trans)
    then have n: "\<not> n < 10" by simp
    from big have "10 ^ j \<le> n div 10" by simp
    from "1.IH" [OF n this] n Suc show ?thesis
      by (simp add: digits_of.simps [of n])
  qed
qed

text \<open>From 1000 on, the digits of a year are its four digits.\<close>

lemma digits_of_year:
  assumes "1000 \<le> y" "y < 10000"
  shows "digits_of y = zero_pad 4 y"
proof -
  from assms have "10 ^ 3 \<le> y" "y < 10 ^ 4" by simp_all
  then have "3 < length (digits_of y)" "length (digits_of y) \<le> 4"
    by (simp_all add: length_digits_of_ge length_digits_of_le)
  then show ?thesis by (simp add: zero_pad_def)
qed

lemma nat_of_digits_of: "nat_of_digits (digits_of n) = n"
proof (induction n rule: digits_of.induct)
  case (1 n)
  show ?case
  proof (cases "n < 10")
    case True
    then show ?thesis
      by (subst digits_of.simps) (simp add: nat_of_digits_def digit_val_digit_char)
  next
    case False
    with 1 show ?thesis
      by (subst digits_of.simps) (simp add: nat_of_digits_snoc digit_val_digit_char)
  qed
qed

lemma foldl_digits:
  "foldl (\<lambda>n c. 10 * n + digit_val c) a ys
     = a * 10 ^ length ys + foldl (\<lambda>n c. 10 * n + digit_val c) 0 ys"
proof (induction ys arbitrary: a)
  case Nil
  show ?case by simp
next
  case (Cons y ys)
  let ?f = "\<lambda>n c. 10 * n + digit_val c"
  define F where "F = foldl ?f 0 ys"
  have 1: "foldl ?f (10 * a + digit_val y) ys = (10 * a + digit_val y) * 10 ^ length ys + F"
    unfolding F_def by (rule Cons.IH)
  have 2: "foldl ?f (digit_val y) ys = digit_val y * 10 ^ length ys + F"
    unfolding F_def by (rule Cons.IH)
  have "foldl ?f a (y # ys) = foldl ?f (10 * a + digit_val y) ys" by simp
  also have "\<dots> = a * 10 ^ length (y # ys) + (digit_val y * 10 ^ length ys + F)"
    unfolding 1 by (simp add: algebra_simps)
  also have "digit_val y * 10 ^ length ys + F = foldl ?f 0 (y # ys)"
    unfolding 2 [symmetric] by simp
  finally show ?case .
qed

lemma nat_of_digits_append:
  "nat_of_digits (xs @ ys) = nat_of_digits xs * 10 ^ length ys + nat_of_digits ys"
  unfolding nat_of_digits_def foldl_append by (rule foldl_digits)

lemma nat_of_digits_zeros: "nat_of_digits (replicate k (CHR ''0'')) = 0"
  by (induction k) (simp_all add: nat_of_digits_def digit_val_def)

lemma nat_of_digits_lead_zeros:
  "nat_of_digits (replicate k (CHR ''0'') @ ds) = nat_of_digits ds"
  by (simp add: nat_of_digits_append nat_of_digits_zeros)

lemma nat_of_digits_trail_zeros:
  "nat_of_digits (ds @ replicate k (CHR ''0'')) = nat_of_digits ds * 10 ^ k"
  by (simp add: nat_of_digits_append nat_of_digits_zeros)

lemma dropWhile_id: "xs = [] \<or> \<not> P (hd xs) \<Longrightarrow> dropWhile P xs = xs"
  by (cases xs) auto

lemma strip_trimmed: "trimmed s \<Longrightarrow> strip s = s"
proof -
  assume t: "trimmed s"
  then have 1: "dropWhile is_space s = s"
    by (intro dropWhile_id) (auto simp: trimmed_def)
  have "rev s = [] \<or> \<not> is_space (hd (rev s))"
    using t by (cases "s = []") (simp_all add: trimmed_def hd_rev)
  then have 2: "dropWhile is_space (rev s) = rev s"
    by (rule dropWhile_id)
  show ?thesis by (simp add: strip_def 1 2)
qed

lemma strip_id: "\<forall>c\<in>set s. \<not> is_space c \<Longrightarrow> strip s = s"
  by (rule strip_trimmed) (auto simp: trimmed_def)

subsection \<open>Reading back the fixed-point text of a decimal\<close>

lemma all_digits_take: "list_all is_digit ds \<Longrightarrow> takeWhile is_digit ds = ds"
  by (simp add: list_all_iff)

lemma all_digits_drop: "list_all is_digit ds \<Longrightarrow> dropWhile is_digit ds = []"
  by (simp add: list_all_iff)

lemma parse_number_int:
  assumes "list_all is_digit ip" "ip \<noteq> []"
  shows "parse_number ip = Some (nat_of_digits ip, 0)"
  using assms
  by (simp add: parse_number_def all_digits_take all_digits_drop first_is_def parse_exponent_def)

lemma not_digit_point: "\<not> is_digit (CHR ''.'')"
  by (simp add: is_digit_def)

lemma parse_number_point:
  assumes "list_all is_digit ip" "list_all is_digit fp" "ip \<noteq> []" "length fp \<le> MAX_PREC"
  shows "parse_number (ip @ CHR ''.'' # fp)
           = Some (nat_of_digits (ip @ fp), - int (length fp))"
proof -
  have 3: "\<not> MAX_PREC < length fp"
    using assms(4) by simp
  have 1: "takeWhile is_digit (ip @ CHR ''.'' # fp) = ip"
    using assms(1) not_digit_point by (simp add: takeWhile_tail list_all_iff)
  have 2: "dropWhile is_digit (ip @ CHR ''.'' # fp) = CHR ''.'' # fp"
    using assms(1) not_digit_point by (simp add: dropWhile_append3 all_digits_drop)
  show ?thesis
    using assms(1-3) 3
    by (simp add: parse_number_def 1 2 first_is_def all_digits_take all_digits_drop
        parse_exponent_def)
qed

text \<open>A text of digits with at most one point inside, not signed, converts to the
  number it writes, when this number is within the limits of the conversion.\<close>

lemma Decimal_plain:
  assumes "parse_number t = Some (c, e)" "\<forall>x\<in>set t. is_digit x \<or> x = CHR ''.''" "t \<noteq> []"
    "representable c e"
  shows "Decimal t = Inr (Finite False c e)"
proof -
  have plain: "\<not> is_space x \<and> x \<noteq> CHR ''_'' \<and> x \<noteq> CHR ''-'' \<and> x \<noteq> CHR ''+''
      \<and> lower_char x = x" if "x \<in> set t" for x
  proof -
    from that assms(2) have "is_digit x \<or> x = CHR ''.''" by simp
    then show ?thesis
    proof
      assume "is_digit x"
      then show ?thesis using is_digit_plain [of x] lower_char_digit [of x] by simp
    next
      assume "x = CHR ''.''"
      then show ?thesis by (simp add: is_space_def lower_char_def)
    qed
  qed
  have 1: "strip t = t"
    by (rule strip_id) (simp add: plain)
  have 2: "filter (\<lambda>c. c \<noteq> CHR ''_'') t = t"
    by (simp add: filter_id_conv plain)
  have 3: "\<not> first_is (CHR ''-'') t" "\<not> first_is (CHR ''+'') t"
    using plain [of "hd t"] assms(3) by (cases t; simp add: first_is_def)+
  have 4: "lower t = t"
    unfolding lower_def by (rule map_idI) (simp add: plain)
  show ?thesis
    unfolding Decimal_def Let_def 1 2 using 3 by (simp add: 4 assms(1,4))
qed


lemma zeros_digits: "list_all is_digit (replicate k (CHR ''0''))"
  by (simp add: list_all_iff is_digit_def)

text \<open>Digits placed around the point: an integer part and a fraction part of digits,
  which together write the number scaled to exponent zero or below.\<close>

lemma place_point_text:
  assumes ds: "list_all is_digit ds" "ds \<noteq> []"
  shows "\<exists>ip fp. place_point ds e = (if fp = [] then ip else ip @ CHR ''.'' # fp)
     \<and> list_all is_digit ip \<and> list_all is_digit fp \<and> ip \<noteq> []
     \<and> nat_of_digits (ip @ fp) = nat_of_digits ds * 10 ^ nat e \<and> - int (length fp) = min e 0"
proof -
  define n where "n = length ds"
  have n: "0 < n" using ds by (simp add: n_def)
  consider (small) "e + int n < 0" | (big) "0 < e" | (whole) "e = 0"
    | (split) "e < 0" "0 < e + int n" | (frac) "e < 0" "e + int n = 0"
    by linarith
  then show ?thesis
  proof cases
    case small
    define fp where "fp = replicate (nat (- (e + int n))) (CHR ''0'') @ ds"
    have 1: "place_point ds e = ''0'' @ CHR ''.'' # fp"
      using small ds(2) by (simp add: place_point_def n_def fp_def Let_def)
    have 2: "list_all is_digit fp" "fp \<noteq> []"
      using ds by (simp_all add: fp_def zeros_digits)
    have "nat_of_digits (''0'' @ fp)
        = nat_of_digits (replicate (Suc (nat (- (e + int n)))) (CHR ''0'') @ ds)"
      by (simp add: fp_def)
    also have "\<dots> = nat_of_digits ds"
      by (rule nat_of_digits_lead_zeros)
    also have "\<dots> = nat_of_digits ds * 10 ^ nat e"
      using small by simp
    finally have 3: "nat_of_digits (''0'' @ fp) = nat_of_digits ds * 10 ^ nat e" .
    have 4: "- int (length fp) = min e 0"
      using small n by (simp add: fp_def n_def)
    show ?thesis
      using 1 2 3 4 by (intro exI [of _ "''0''"] exI [of _ fp]) (simp add: is_digit_def)
  next
    case big
    define ip where "ip = ds @ replicate (nat e) (CHR ''0'')"
    have 1: "place_point ds e = ip"
      using big by (simp add: place_point_def n_def ip_def Let_def)
    have 2: "list_all is_digit ip" "ip \<noteq> []"
      using ds by (simp_all add: ip_def zeros_digits)
    have 3: "nat_of_digits ip = nat_of_digits ds * 10 ^ nat e"
      by (simp add: ip_def nat_of_digits_trail_zeros)
    show ?thesis
      using 1 2 3 big by (intro exI [of _ ip] exI [of _ "[]"]) simp
  next
    case whole
    then have "place_point ds e = ds"
      using ds by (simp add: place_point_def Let_def)
    with ds whole show ?thesis
      by (intro exI [of _ ds] exI [of _ "[]"]) simp
  next
    case split
    define k where "k = nat (e + int n)"
    have k: "0 < k" "k < n" using split by (simp_all add: k_def)
    have 1: "place_point ds e = take k ds @ CHR ''.'' # drop k ds"
      using split k ds(2)
      by (simp add: place_point_def n_def [symmetric] k_def [symmetric] Let_def)
    have 2: "list_all is_digit (take k ds)" "list_all is_digit (drop k ds)"
      using ds(1) by (auto simp: list_all_iff dest: in_set_takeD in_set_dropD)
    have 3: "take k ds \<noteq> []" "drop k ds \<noteq> []"
      using k ds(2) by (simp_all add: n_def)
    have 4: "nat_of_digits (take k ds @ drop k ds) = nat_of_digits ds * 10 ^ nat e"
      using split by simp
    have 5: "- int (length (drop k ds)) = min e 0"
      using split k by (simp add: n_def [symmetric] k_def)
    show ?thesis
      using 1 2 3 4 5 by (intro exI [of _ "take k ds"] exI [of _ "drop k ds"]) simp
  next
    case frac
    have 1: "place_point ds e = ''0'' @ CHR ''.'' # ds"
      using frac ds by (simp add: place_point_def n_def [symmetric] Let_def)
    have "nat_of_digits (replicate 1 (CHR ''0'') @ ds) = nat_of_digits ds"
      by (rule nat_of_digits_lead_zeros)
    then have 2: "nat_of_digits (''0'' @ ds) = nat_of_digits ds * 10 ^ nat e"
      using frac by simp
    have 3: "- int (length ds) = min e 0"
      using frac by (simp add: n_def [symmetric])
    show ?thesis
      using 1 2 3 ds by (intro exI [of _ "''0''"] exI [of _ ds]) (simp add: is_digit_def)
  qed
qed

lemma format_f_finite_text:
  "\<exists>ip fp. format_f (Finite False c e) = (if fp = [] then ip else ip @ CHR ''.'' # fp)
     \<and> list_all is_digit ip \<and> list_all is_digit fp \<and> ip \<noteq> []
     \<and> nat_of_digits (ip @ fp) = c * 10 ^ nat e \<and> - int (length fp) = min e 0"
proof (cases "c = 0 \<and> 0 < e")
  case True
  with place_point_text [OF digits_of_digits digits_of_not_Nil, of c 0] show ?thesis
    by (simp add: format_f_def sign_text_def nat_of_digits_of)
next
  case False
  then have "(if c = 0 \<and> 0 < e then 0 else e) = e" by simp
  with place_point_text [OF digits_of_digits digits_of_not_Nil, of c e] show ?thesis
    by (simp only: format_f_def decimal.case sign_text_def if_False append_Nil nat_of_digits_of)
qed

lemma format_f_finite_plain:
  "format_f (Finite False c e) \<noteq> []
   \<and> (\<forall>x\<in>set (format_f (Finite False c e)). is_digit x \<or> x = CHR ''.'')"
proof -
  from format_f_finite_text [of c e] obtain ip fp where
    t: "format_f (Finite False c e) = (if fp = [] then ip else ip @ CHR ''.'' # fp)"
    and d: "list_all is_digit ip" "list_all is_digit fp" "ip \<noteq> []"
    by blast
  from d show ?thesis
    by (auto simp: t list_all_iff)
qed

text \<open>The fixed-point text of a finite decimal without sign, when it is no longer than
  a field of the expense file may be, converts to the same number.\<close>

lemma Decimal_format_finite:
  assumes len: "length (format_f (Finite False c e)) \<le> field_limit"
  shows "Decimal (format_f (Finite False c e)) = Inr (to_fixed (Finite False c e))"
proof -
  from format_f_finite_text [of c e] obtain ip fp where
    t: "format_f (Finite False c e) = (if fp = [] then ip else ip @ CHR ''.'' # fp)"
    and d: "list_all is_digit ip" "list_all is_digit fp" "ip \<noteq> []"
    and v: "nat_of_digits (ip @ fp) = c * 10 ^ nat e" "- int (length fp) = min e 0"
    by blast
  define n where "n = length (digits_of (c * 10 ^ nat e))"
  define m where "m = min e 0"
  have l: "length ip + length fp \<le> field_limit"
    using len by (simp add: t split: if_splits)
  then have fpl: "length fp \<le> MAX_PREC"
    by (simp add: field_limit_def MAX_PREC_def)
  have "list_all is_digit (ip @ fp)"
    using d by simp
  then have "nat_of_digits (ip @ fp) < 10 ^ length (ip @ fp)"
    by (rule nat_of_digits_less)
  then have "c * 10 ^ nat e < 10 ^ length (ip @ fp)"
    by (simp only: v(1))
  then have "n \<le> length (ip @ fp)"
    unfolding n_def using d(3) by (intro length_digits_of_le) simp_all
  with l have n: "n \<le> 131072"
    by (simp add: field_limit_def)
  have m: "- 131072 \<le> m" "m \<le> 0"
    using l v(2) by (simp_all add: m_def field_limit_def)
  have "n \<le> MAX_PREC \<and> MIN_ETINY \<le> m \<and> m + int n - 1 \<le> MAX_EMAX"
    using n m by (simp add: MAX_PREC_def MIN_ETINY_def MAX_EMAX_def)
  then have rep: "representable (c * 10 ^ nat e) (min e 0)"
    by (simp add: representable_def n_def m_def)
  have "parse_number (format_f (Finite False c e)) = Some (c * 10 ^ nat e, min e 0)"
  proof (cases "fp = []")
    case True
    with parse_number_int [OF d(1) d(3)] v show ?thesis by (simp add: t)
  next
    case False
    with parse_number_point [OF d fpl] v show ?thesis by (simp add: t)
  qed
  from Decimal_plain [OF this _ _ rep] format_f_finite_plain [of c e] show ?thesis
    by (simp add: to_fixed_def)
qed

lemma Decimal_Infinity: "Decimal ''Infinity'' = Inr (Infinity False)"
  by (simp add: decimal_eval string_eval digit_eval)

lemma plain_not_space: "is_digit x \<or> x = CHR ''.'' \<Longrightarrow> \<not> is_space x"
  by (auto simp: is_digit_def is_space_def)

lemma strip_Infinity: "strip ''Infinity'' = ''Infinity''"
  by (simp add: string_eval)

text \<open>A decimal above zero is read back from its text as the same number, when the
  text is no longer than a field of the expense file may be.\<close>

lemma Decimal_format_positive:
  assumes "dec_sgn a = Some 1" "length (format_f a) \<le> field_limit"
  shows "Decimal (strip (format_f a)) = Inr (to_fixed a) \<and> format_f a \<noteq> []
    \<and> dec_sgn (to_fixed a) = Some 1"
proof (cases a)
  case (Finite s c e)
  with assms have s: "\<not> s" and c: "0 < c"
    by (auto simp: dec_sgn_def signed_def sgn_if split: if_splits)
  have "\<forall>x\<in>set (format_f (Finite False c e)). \<not> is_space x"
    using format_f_finite_plain [of c e] plain_not_space by blast
  then have "strip (format_f (Finite False c e)) = format_f (Finite False c e)"
    by (rule strip_id)
  moreover have "Decimal (format_f (Finite False c e)) = Inr (to_fixed (Finite False c e))"
    using assms(2) s by (intro Decimal_format_finite) (simp add: Finite)
  ultimately show ?thesis
    using format_f_finite_plain [of c e] s c
    by (simp add: Finite to_fixed_def dec_sgn_def signed_def)
next
  case (Infinity s)
  with assms have "\<not> s" by (auto simp: dec_sgn_def split: if_splits)
  then show ?thesis
    by (simp add: Infinity format_f_def sign_text_def to_fixed_def dec_sgn_def
        Decimal_Infinity strip_Infinity)
next
  case (NaN s g p)
  with assms show ?thesis by (simp add: dec_sgn_def)
qed

subsection \<open>Reading back the text of a date\<close>

lemma zero_pad_2: "n < 100 \<Longrightarrow> zero_pad 2 n = [digit_char (n div 10), digit_char n]"
proof (cases "n < 10")
  case True
  then show ?thesis
    by (simp add: zero_pad_def digits_of.simps [of n] digit_char_def)
next
  case False
  assume "n < 100"
  with False have "n div 10 < 10" by simp
  with False show ?thesis
    by (simp add: zero_pad_def digits_of.simps [of n] digits_of.simps [of "n div 10"])
qed

lemma zero_pad_props:
  assumes "length (digits_of n) \<le> w"
  shows "length (zero_pad w n) = w" "list_all is_digit (zero_pad w n)"
    "nat_of_digits (zero_pad w n) = n"
  using assms
  by (simp_all add: zero_pad_def zeros_digits digits_of_digits nat_of_digits_lead_zeros
      nat_of_digits_of)

lemma length_4: "length xs = 4 \<Longrightarrow> \<exists>a b c d. xs = [a, b, c, d]"
  by (auto simp: numeral_eq_Suc length_Suc_conv)

lemma match_Y_pad: "y < 10000 \<Longrightarrow> match_Y (zero_pad 4 y @ r) = [(y, r)]"
proof -
  assume "y < 10000"
  then have "y < 10 ^ 4" by simp
  then have len: "length (digits_of y) \<le> 4"
    by (rule length_digits_of_le) simp
  from zero_pad_props(1) [OF len] obtain a b c d where p: "zero_pad 4 y = [a, b, c, d]"
    using length_4 by blast
  from zero_pad_props(2,3) [OF len] show ?thesis
    by (simp add: p match_Y_def)
qed

lemma digit_char_numerals:
  "digit_char 0 = CHR ''0''" "digit_char 1 = CHR ''1''" "digit_char 2 = CHR ''2''"
  "digit_char 3 = CHR ''3''" "digit_char 4 = CHR ''4''" "digit_char 5 = CHR ''5''"
  "digit_char 6 = CHR ''6''" "digit_char 7 = CHR ''7''" "digit_char 8 = CHR ''8''"
  "digit_char 9 = CHR ''9''" "digit_char 10 = CHR ''0''" "digit_char 11 = CHR ''1''"
  "digit_char 12 = CHR ''2''" "digit_char (Suc 0) = CHR ''1''"
  by (simp_all add: digit_char_def)

lemma month_cases:
  "1 \<le> m \<Longrightarrow> m \<le> 12 \<Longrightarrow>
     m = 1 \<or> m = 2 \<or> m = 3 \<or> m = 4 \<or> m = 5 \<or> m = 6 \<or> m = 7 \<or> m = 8 \<or> m = 9
     \<or> m = 10 \<or> m = 11 \<or> m = (12::nat)"
  by arith

text \<open>The month group, followed by the hyphen, reads the two digits of a month and
  nothing else.\<close>

lemma match_m_pad:
  assumes "1 \<le> m" "m \<le> 12"
  shows "concat (map (\<lambda>(m', r3). concat (map (F m') (match_lit (CHR ''-'') r3)))
           (match_m (zero_pad 2 m @ CHR ''-'' # r))) = F m r"
proof -
  have p: "zero_pad 2 m = [digit_char (m div 10), digit_char m]"
    using assms by (intro zero_pad_2) simp
  from month_cases [OF assms] show ?thesis
    unfolding p
    by (elim disjE)
      (simp_all add: digit_char_numerals match_m_def two_chars_def one_char_def in_range_def
        match_lit_def nat_of_digits_def digit_val_def)
qed


lemma day_cases:
  "1 \<le> d \<Longrightarrow> d \<le> 31 \<Longrightarrow>
     d = 1 \<or> d = 2 \<or> d = 3 \<or> d = 4 \<or> d = 5 \<or> d = 6 \<or> d = 7 \<or> d = 8 \<or> d = 9
     \<or> d = 10 \<or> d = 11 \<or> d = 12 \<or> d = 13 \<or> d = 14 \<or> d = 15 \<or> d = 16 \<or> d = 17
     \<or> d = 18 \<or> d = 19 \<or> d = 20 \<or> d = 21 \<or> d = 22 \<or> d = 23 \<or> d = 24 \<or> d = 25
     \<or> d = 26 \<or> d = 27 \<or> d = 28 \<or> d = 29 \<or> d = 30 \<or> d = (31::nat)"
  by arith

lemma digit_char_mod: "digit_char n = digit_char (n mod 10)"
  by (simp add: digit_char_def)

text \<open>The day group reads the two digits of a day first.\<close>

lemma match_d_pad:
  assumes "1 \<le> d" "d \<le> 31"
  shows "\<exists>more. match_d (zero_pad 2 d) = (d, []) # more"
proof -
  have p: "zero_pad 2 d = [digit_char (d div 10), digit_char (d mod 10)]"
    using assms zero_pad_2 [of d] digit_char_mod [of d] by simp
  from day_cases [OF assms] show ?thesis
    unfolding p
    by (elim disjE)
      (simp_all add: digit_char_numerals match_d_def two_chars_def one_char_def in_range_def
        match_lit_def nat_of_digits_def digit_val_def is_digit_def)
qed

lemma days_in_month_le: "days_in_month y m \<le> 31"
  by (simp add: days_in_month_def)




text \<open>The text of a calendar date from the year 1000 on has the form \<open>YYYY-MM-DD\<close>, ten
  characters.\<close>

lemma strftime_ymd_padded:
  assumes "valid_date d" "1000 \<le> year d"
  shows "strftime_ymd d
           = zero_pad 4 (year d) @ ''-'' @ zero_pad 2 (month d) @ ''-'' @ zero_pad 2 (day d)"
    and "length (strftime_ymd d) = 10"
proof -
  from assms have y: "year d < 10000" and m: "month d < 100" and dd: "day d < 100"
    using days_in_month_le [of "year d" "month d"] by (simp_all add: valid_date_def)
  show 1: "strftime_ymd d
           = zero_pad 4 (year d) @ ''-'' @ zero_pad 2 (month d) @ ''-'' @ zero_pad 2 (day d)"
    by (simp add: strftime_ymd_def digits_of_year [OF assms(2) y])
  from y have "year d < 10 ^ 4" by simp
  then have "length (digits_of (year d)) \<le> 4"
    by (rule length_digits_of_le) simp
  then have "length (zero_pad 4 (year d)) = 4"
    by (rule zero_pad_props(1))
  then show "length (strftime_ymd d) = 10"
    by (simp add: 1 zero_pad_2 [OF m] zero_pad_2 [OF dd])
qed

lemma match_lit_hit: "match_lit c (c # r) = [r]"
  by (simp add: match_lit_def)

text \<open>A calendar date from the year 1000 on is read back from its text.\<close>

lemma strptime_strftime:
  assumes "valid_date d" "1000 \<le> year d"
  shows "strptime (strftime_ymd d) = Inr d"
proof -
  from assms have y: "year d < 10000" and m: "1 \<le> month d" "month d \<le> 12"
    and dd: "1 \<le> day d" "day d \<le> 31"
    using days_in_month_le [of "year d" "month d"] by (simp_all add: valid_date_def)
  from match_d_pad [OF dd] obtain more where
    day: "match_d (zero_pad 2 (day d)) = (day d, []) # more" ..
  have "match_ymd (strftime_ymd d)
      = map (\<lambda>(d', r5). (\<lparr>year = year d, month = month d, day = d'\<rparr>, r5))
          (match_d (zero_pad 2 (day d)))"
    unfolding match_ymd_def strftime_ymd_padded(1) [OF assms]
    by (simp add: match_Y_pad [OF y] match_lit_hit match_m_pad [OF m])
  then have "match_ymd (strftime_ymd d)
      = (d, []) # map (\<lambda>(d', r5). (\<lparr>year = year d, month = month d, day = d'\<rparr>, r5)) more"
    by (simp add: day)
  with assms(1) show ?thesis
    by (simp add: strptime_def)
qed

subsection \<open>Serialising an expense and constructing it again\<close>

lemma dec_eq_to_fixed: "dec_sgn a = Some 1 \<Longrightarrow> dec_eq a (to_fixed a)"
proof (cases a)
  case (Finite s c e)
  have "nat (e - min e 0) = nat e" by simp
  then show ?thesis
    by (simp add: Finite dec_eq_def to_fixed_def min.absorb2 signed_def)
next
  case (Infinity s)
  then show ?thesis by (simp add: dec_eq_def to_fixed_def)
next
  case (NaN s g p)
  assume "dec_sgn a = Some 1"
  with NaN show ?thesis by (simp add: dec_sgn_def)
qed

lemma dec_le_zero_False_sgn: "dec_le_zero a = Inr False \<Longrightarrow> dec_sgn a = Some 1"
  by (auto simp: dec_le_zero_def dec_sgn_def signed_def sgn_if split: decimal.splits if_splits)

lemma format_f_positive_text:
  assumes "dec_sgn a = Some 1"
  shows "format_f a = ''Infinity'' \<or> (\<forall>x\<in>set (format_f a). is_digit x \<or> x = CHR ''.'')"
proof (cases a)
  case (Finite s c e)
  with assms have "\<not> s"
    by (auto simp: dec_sgn_def signed_def sgn_if split: if_splits)
  with format_f_finite_plain [of c e] show ?thesis by (simp add: Finite)
next
  case (Infinity s)
  with assms have "\<not> s" by (auto simp: dec_sgn_def split: if_splits)
  then show ?thesis by (simp add: Infinity format_f_def sign_text_def)
next
  case (NaN s g p)
  with assms show ?thesis by (simp add: dec_sgn_def)
qed

lemma Decimal_strip: "Decimal (strip v) = Decimal v"
proof -
  have "trimmed (strip v)" by (rule trimmed_strip)
  then have "strip (strip v) = strip v" by (rule strip_trimmed)
  then show ?thesis by (simp add: Decimal_def)
qed

lemma from_row_lunch_row: "from_row lunch_row = Inr lunch"
proof -
  have texts: "strip '' Food'' = ''Food''" "strip ''Lunch '' = ''Lunch''"
    by (simp_all add: string_eval)
  show ?thesis
    by (simp add: lunch_row_def row_of_def row_eval texts strip_plain strptime_lunch decimal_250
        dec_le_zero_def lunch_def)
qed

lemma strptime_taxi: "strptime ''2025-1-6'' = Inr \<lparr>year = 2025, month = 1, day = 6\<rparr>"
  by (simp add: date_eval digit_eval)

lemma decimal_1e2: "Decimal ''1e2'' = Inr (Finite False 1 2)"
  by (simp add: decimal_eval string_eval digit_eval)

lemma strip_taxi:
  "strip ''2025-1-6'' = ''2025-1-6''" "strip ''Travel'' = ''Travel''" "strip ''1e2'' = ''1e2''"
  "strip ''Taxi'' = ''Taxi''"
  by (simp_all add: string_eval)

lemma from_row_taxi_row: "from_row taxi_row = Inr taxi"
  by (simp add: taxi_row_def row_of_def row_eval strip_taxi strptime_taxi decimal_1e2
      dec_le_zero_def taxi_def)

lemma to_row_taxi:
  "to_row taxi = [(''date'', ''2025-01-06''), (''category'', ''Travel''), (''amount'', ''100''),
                  (''description'', ''Taxi'')]"
  by (simp add: to_row_def taxi_def date_eval digit_eval decimal_eval numeral_2_eq_2)

lemma to_row_lunch:
  "to_row lunch = [(''date'', ''2025-01-15''), (''category'', ''Food''),
                   (''amount'', ''250.00''), (''description'', ''Lunch'')]"
  by (simp add: to_row_def lunch_def date_eval digit_eval decimal_eval)

lemma strptime_old: "strptime ''0999-01-01'' = Inr \<lparr>year = 999, month = 1, day = 1\<rparr>"
  by (simp add: date_eval digit_eval)

lemma strptime_unpadded: "strptime ''999-01-01'' = Inl (ValueError ''time data does not match format'')"
  by (simp add: date_eval digit_eval)

lemma decimal_5: "Decimal ''5'' = Inr (Finite False 5 0)"
  by (simp add: decimal_eval string_eval digit_eval)

lemma strip_old:
  "strip ''0999-01-01'' = ''0999-01-01''" "strip ''999-01-01'' = ''999-01-01''"
  "strip ''Rent'' = ''Rent''" "strip ''5'' = ''5''" "strip ''Tithe'' = ''Tithe''"
  by (simp_all add: string_eval)

lemma from_row_old_row: "from_row old_row = Inr old"
  by (simp add: old_row_def row_of_def row_eval strip_old strptime_old decimal_5
      dec_le_zero_def old_def)

lemma to_row_old:
  "to_row old = [(''date'', ''999-01-01''), (''category'', ''Rent''), (''amount'', ''5''),
                 (''description'', ''Tithe'')]"
  by (simp add: to_row_def old_def date_eval digit_eval decimal_eval)

text \<open>
  Claim C5, as the specification has it: serialising the expense constructed from a
  valid mapping gives back the date text and the amount text of the mapping. A date
  written without leading zeros and an amount written with an exponent come back in
  another form; and the date of a year before 1000 comes back with the year on fewer
  than four digits, a text that does not even parse as a date.
\<close>

theorem to_row_not_input_counterexample:
  "from_row taxi_row = Inr taxi
   \<and> row_get taxi_row ''date'' = Some ''2025-1-6''
   \<and> dict_get (to_row taxi) ''date'' = Some ''2025-01-06''
   \<and> row_get taxi_row ''amount'' = Some ''1e2''
   \<and> dict_get (to_row taxi) ''amount'' = Some ''100''
   \<and> from_row old_row = Inr old
   \<and> row_get old_row ''date'' = Some ''0999-01-01''
   \<and> dict_get (to_row old) ''date'' = Some ''999-01-01''
   \<and> strptime ''999-01-01'' = Inl (ValueError ''time data does not match format'')"
  by (simp add: from_row_taxi_row to_row_taxi from_row_old_row to_row_old strptime_unpadded
      dict_get_def)
    (simp add: taxi_row_def old_row_def row_of_def row_get_def dict_get_def)

text \<open>
  Claim C5, amended. For every mapping from which an expense is constructed whose
  amount, written as fixed-point text, has at most 131072 characters (what a field of
  the expense file can hold), serialising the expense gives the trimmed category and
  description of the mapping exactly, the date as the text \<^verbatim>\<open>strftime\<close> writes for the
  parsed date and the amount as the fixed-point text of the parsed amount, which
  consists of digits with at most one point (no exponent, no separator) or is
  \<^verbatim>\<open>Infinity\<close>. When the year is 1000 or later, the date text is the zero-padded text
  \<open>YYYY-MM-DD\<close> and reads back as the date of the mapping. The amount text reads back as
  a number equal to the amount of the mapping.
\<close>

theorem to_row_from_row:
  assumes "from_row r = Inr e" and "storable_amount (amount e)"
  shows "(\<exists>ds c a t.
       row_get r ''date'' = Some ds \<and> row_get r ''category'' = Some c
       \<and> row_get r ''amount'' = Some a \<and> row_get r ''description'' = Some t
       \<and> to_row e = [(''date'', strftime_ymd (date e)), (''category'', strip c),
                      (''amount'', format_f (amount e)), (''description'', strip t)]
       \<and> strptime (strip ds) = Inr (date e) \<and> Decimal (strip a) = Inr (amount e))
     \<and> (1000 \<le> year (date e) \<longrightarrow>
          strftime_ymd (date e)
            = zero_pad 4 (year (date e)) @ ''-'' @ zero_pad 2 (month (date e)) @ ''-''
              @ zero_pad 2 (day (date e))
          \<and> strptime (strftime_ymd (date e)) = Inr (date e))
     \<and> Decimal (format_f (amount e)) = Inr (to_fixed (amount e))
     \<and> dec_eq (amount e) (to_fixed (amount e))
     \<and> (format_f (amount e) = ''Infinity''
          \<or> (\<forall>x\<in>set (format_f (amount e)). is_digit x \<or> x = CHR ''.''))"
proof -
  from assms(1) obtain ds c a t d amt where
    ds: "row_get r ''date'' = Some ds" "strptime (strip ds) = Inr d"
    and c: "row_get r ''category'' = Some c" and t: "row_get r ''description'' = Some t"
    and a: "row_get r ''amount'' = Some a" "Decimal (strip a) = Inr amt"
    and le: "dec_le_zero amt = Inr False"
    and e: "e = \<lparr>date = d, category = strip c, amount = amt, description = strip t\<rparr>"
    by (auto simp: from_row_def from_row_date_def from_row_amount_def
        split: if_splits sum.splits option.splits error.splits bool.splits)
  have fields: "date e = d" "amount e = amt"
    by (simp_all add: e)
  have pos: "dec_sgn amt = Some 1" using le by (rule dec_le_zero_False_sgn)
  have fits: "length (format_f amt) \<le> field_limit"
    using assms(2) by (simp add: storable_amount_def e)
  have d: "valid_date d" using ds(2) by (rule strptime_valid)
  have 1: "\<exists>ds c a t.
       row_get r ''date'' = Some ds \<and> row_get r ''category'' = Some c
       \<and> row_get r ''amount'' = Some a \<and> row_get r ''description'' = Some t
       \<and> to_row e = [(''date'', strftime_ymd (date e)), (''category'', strip c),
                      (''amount'', format_f (amount e)), (''description'', strip t)]
       \<and> strptime (strip ds) = Inr (date e) \<and> Decimal (strip a) = Inr (amount e)"
    using ds c t a by (simp add: e to_row_def)
  have 2: "1000 \<le> year (date e) \<longrightarrow>
          strftime_ymd (date e)
            = zero_pad 4 (year (date e)) @ ''-'' @ zero_pad 2 (month (date e)) @ ''-''
              @ zero_pad 2 (day (date e))
          \<and> strptime (strftime_ymd (date e)) = Inr (date e)"
    unfolding fields using strftime_ymd_padded(1) [OF d] strptime_strftime [OF d] by blast
  have 3: "Decimal (format_f (amount e)) = Inr (to_fixed (amount e))"
    unfolding fields using Decimal_format_positive [OF pos fits] by (simp add: Decimal_strip)
  have 4: "dec_eq (amount e) (to_fixed (amount e))"
    unfolding fields using pos by (rule dec_eq_to_fixed)
  have 5: "format_f (amount e) = ''Infinity''
          \<or> (\<forall>x\<in>set (format_f (amount e)). is_digit x \<or> x = CHR ''.'')"
    unfolding fields using pos by (rule format_f_positive_text)
  from 1 2 3 4 5 show ?thesis by (intro conjI)
qed

theorem to_row_from_row_witness:
  "to_row lunch = [(''date'', ''2025-01-15''), (''category'', ''Food''),
                   (''amount'', ''250.00''), (''description'', ''Lunch'')]
   \<and> strptime ''2025-01-15'' = Inr (date lunch)
   \<and> Decimal ''250.00'' = Inr (to_fixed (amount lunch))"
proof -
  have texts: "strftime_ymd (date lunch) = ''2025-01-15''" "format_f (amount lunch) = ''250.00''"
    by (simp_all add: lunch_def date_eval digit_eval decimal_eval)
  have fits: "storable_amount (amount lunch)"
    by (simp add: storable_amount_def texts field_limit_def)
  have year: "1000 \<le> year (date lunch)"
    by (simp add: lunch_def)
  from to_row_from_row [OF from_row_lunch_row fits] year
  have "strptime (strftime_ymd (date lunch)) = Inr (date lunch)"
    "Decimal (format_f (amount lunch)) = Inr (to_fixed (amount lunch))"
    by blast+
  then show ?thesis
    by (simp add: texts to_row_lunch)
qed

subsection \<open>Saving and loading again\<close>


















end
